theory Spec2Isabelle
  imports Main "HOL-Library.Word"
begin

unbundle bit_operations_syntax

section \<open>Error codes\<close>

text \<open>
  The C functions return a negative errno value on failure.  A division by zero is
  undefined behaviour in C; it is kept apart as \<open>DivisionByZero\<close>, and a read through
  a null or dangling pointer as \<open>BadPointer\<close>, so that no model silently returns a
  number where the program has no defined result.
\<close>

datatype error = EINVAL | ENOTSUP | ENOMEM | ENOENT | EBUSY | DivisionByZero | BadPointer

section \<open>Protocol codec (irdb\_protocol.h, irdb\_protocol.c)\<close>

subsection \<open>Data\<close>

text \<open>The values of the enumeration \<open>irdb_protocol_id_t\<close>.\<close>

abbreviation (input) IRDB_PROTOCOL_NEC1 :: "16 word" where "IRDB_PROTOCOL_NEC1 \<equiv> 1"
abbreviation (input) IRDB_PROTOCOL_NEC2 :: "16 word" where "IRDB_PROTOCOL_NEC2 \<equiv> 2"
abbreviation (input) IRDB_PROTOCOL_RC5 :: "16 word" where "IRDB_PROTOCOL_RC5 \<equiv> 4"
abbreviation (input) IRDB_PROTOCOL_RC6 :: "16 word" where "IRDB_PROTOCOL_RC6 \<equiv> 5"
abbreviation (input) IRDB_PROTOCOL_SONY12 :: "16 word" where "IRDB_PROTOCOL_SONY12 \<equiv> 15"
abbreviation (input) IRDB_PROTOCOL_SONY15 :: "16 word" where "IRDB_PROTOCOL_SONY15 \<equiv> 16"
abbreviation (input) IRDB_PROTOCOL_SONY20 :: "16 word" where "IRDB_PROTOCOL_SONY20 \<equiv> 17"
abbreviation (input) IRDB_PROTOCOL_SAMSUNG32 :: "16 word" where "IRDB_PROTOCOL_SAMSUNG32 \<equiv> 20"
abbreviation (input) IRDB_PROTOCOL_SAMSUNG36 :: "16 word" where "IRDB_PROTOCOL_SAMSUNG36 \<equiv> 21"

text \<open>\<open>irdb_entry_t\<close>; the field \<open>function\<close> is called \<open>function_code\<close> here.\<close>

record irdb_entry =
  function_name :: string
  protocol :: "16 word"
  device :: "16 word"
  subdevice :: "16 word"
  function_code :: "16 word"

text \<open>
  \<open>irdb_protocol_params_t\<close>.  The protocol identifier is an enumeration value in C;
  it is compared with the 16-bit \<open>protocol\<close> field of an entry, so it is a 16-bit
  word here.
\<close>

record irdb_protocol_params =
  protocol_id :: "16 word"
  params_name :: string
  frequency :: "32 word"
  duty_cycle :: "32 word"
  header_mark :: "32 word"
  header_space :: "32 word"
  bit_mark :: "32 word"
  bit_0_space :: "32 word"
  bit_1_space :: "32 word"
  trailer_mark :: "32 word"
  gap :: "32 word"
  device_bits :: "8 word"
  subdevice_bits :: "8 word"
  function_bits :: "8 word"
  toggle_bit :: bool

definition nec1_params :: irdb_protocol_params where
  "nec1_params = \<lparr>protocol_id = IRDB_PROTOCOL_NEC1, params_name = ''NEC1'',
     frequency = 38000, duty_cycle = 33, header_mark = 9000, header_space = 4500,
     bit_mark = 560, bit_0_space = 560, bit_1_space = 1690, trailer_mark = 560,
     gap = 108000, device_bits = 8, subdevice_bits = 8, function_bits = 8,
     toggle_bit = False\<rparr>"

definition nec2_params :: irdb_protocol_params where
  "nec2_params = \<lparr>protocol_id = IRDB_PROTOCOL_NEC2, params_name = ''NEC2'',
     frequency = 38000, duty_cycle = 33, header_mark = 9000, header_space = 4500,
     bit_mark = 560, bit_0_space = 560, bit_1_space = 1690, trailer_mark = 560,
     gap = 108000, device_bits = 16, subdevice_bits = 0, function_bits = 8,
     toggle_bit = False\<rparr>"

definition rc5_params :: irdb_protocol_params where
  "rc5_params = \<lparr>protocol_id = IRDB_PROTOCOL_RC5, params_name = ''RC5'',
     frequency = 36000, duty_cycle = 25, header_mark = 0, header_space = 0,
     bit_mark = 889, bit_0_space = 889, bit_1_space = 889, trailer_mark = 0,
     gap = 113792, device_bits = 5, subdevice_bits = 0, function_bits = 6,
     toggle_bit = True\<rparr>"

definition sony12_params :: irdb_protocol_params where
  "sony12_params = \<lparr>protocol_id = IRDB_PROTOCOL_SONY12, params_name = ''Sony12'',
     frequency = 40000, duty_cycle = 33, header_mark = 2400, header_space = 600,
     bit_mark = 1200, bit_0_space = 600, bit_1_space = 600, trailer_mark = 0,
     gap = 45000, device_bits = 5, subdevice_bits = 0, function_bits = 7,
     toggle_bit = False\<rparr>"

definition sony15_params :: irdb_protocol_params where
  "sony15_params = \<lparr>protocol_id = IRDB_PROTOCOL_SONY15, params_name = ''Sony15'',
     frequency = 40000, duty_cycle = 33, header_mark = 2400, header_space = 600,
     bit_mark = 1200, bit_0_space = 600, bit_1_space = 600, trailer_mark = 0,
     gap = 45000, device_bits = 8, subdevice_bits = 0, function_bits = 7,
     toggle_bit = False\<rparr>"

definition samsung32_params :: irdb_protocol_params where
  "samsung32_params = \<lparr>protocol_id = IRDB_PROTOCOL_SAMSUNG32, params_name = ''Samsung32'',
     frequency = 38000, duty_cycle = 33, header_mark = 4500, header_space = 4500,
     bit_mark = 560, bit_0_space = 560, bit_1_space = 1690, trailer_mark = 560,
     gap = 108000, device_bits = 8, subdevice_bits = 8, function_bits = 8,
     toggle_bit = False\<rparr>"

definition protocol_params :: "irdb_protocol_params list" where
  "protocol_params =
     [nec1_params, nec2_params, rc5_params, sony12_params, sony15_params, samsung32_params]"

text \<open>\<open>irdb_get_protocol_params\<close>: the first table row with the identifier, or NULL.\<close>

definition irdb_get_protocol_params :: "16 word \<Rightarrow> irdb_protocol_params option" where
  "irdb_get_protocol_params proto = find (\<lambda>p. protocol_id p = proto) protocol_params"

subsection \<open>Encoding\<close>

text \<open>
  \<open>(1 << bits) - 1\<close> is computed in \<open>int\<close> (32 bits).  The operand of \<open>&\<close> is
  an \<open>uint16_t\<close> promoted to \<open>int\<close>; the result, an \<open>int\<close>, is converted to
  \<open>uint64_t\<close> by sign extension when it is or-ed into the code word.
\<close>

definition field_mask :: "8 word \<Rightarrow> 32 word" where
  "field_mask bits = push_bit (unat bits) 1 - 1"

definition add_field :: "8 word \<Rightarrow> 16 word \<Rightarrow> 64 word \<times> nat \<Rightarrow> 64 word \<times> nat" where
  "add_field bits v ct =
     (push_bit (unat bits) (fst ct) OR scast (ucast v AND field_mask bits),
      snd ct + unat bits)"

text \<open>
  The code word and its number of bits (\<open>total_bits\<close>, an \<open>uint32_t\<close> that stays
  below 774 and is a natural number here).
\<close>

definition assemble_code :: "irdb_protocol_params \<Rightarrow> irdb_entry \<Rightarrow> 64 word \<times> nat" where
  "assemble_code params entry =
     (let ct0 = (0, 0);
          ct1 = (if device_bits params > 0
                 then add_field (device_bits params) (device entry) ct0 else ct0);
          ct2 = (if subdevice_bits params > 0
                 then add_field (subdevice_bits params) (subdevice entry) ct1 else ct1);
          ct3 = add_field (function_bits params) (function_code entry) ct2
      in if protocol entry = IRDB_PROTOCOL_NEC1
         then (push_bit 8 (fst ct3)
                 OR scast ((NOT (ucast (function_code entry) :: 32 word)) AND 0xFF),
               snd ct3 + 8)
         else ct3)"

text \<open>The two durations written for one bit, by the three branches of the loop body.\<close>

definition encode_bit :: "16 word \<Rightarrow> irdb_protocol_params \<Rightarrow> bool \<Rightarrow> 32 word list" where
  "encode_bit proto params b =
     (if proto = IRDB_PROTOCOL_RC5 then
        (if b then [bit_0_space params, bit_mark params]
         else [bit_mark params, bit_0_space params])
      else if IRDB_PROTOCOL_SONY12 \<le> proto \<and> proto \<le> IRDB_PROTOCOL_SONY20 then
        [if b then bit_mark params else bit_mark params div 2, bit_0_space params]
      else
        [bit_mark params, if b then bit_1_space params else bit_0_space params])"

text \<open>
  The loop \<open>for (i = total_bits - 1; i >= 0; i--)\<close>: the argument \<open>Suc i\<close> is the
  number of bits still to write, \<open>i\<close> the index of the bit written now.  The output
  buffer is the list of the durations written so far, \<open>idx\<close> its length.
\<close>

fun encode_bits ::
  "16 word \<Rightarrow> irdb_protocol_params \<Rightarrow> 64 word \<Rightarrow> nat \<Rightarrow> nat \<Rightarrow> 32 word list
     \<Rightarrow> error + 32 word list" where
  "encode_bits proto params code 0 max_length out = Inr out"
| "encode_bits proto params code (Suc i) max_length out =
     (if length out + 2 > max_length then Inl ENOMEM
      else encode_bits proto params code i max_length
             (out @ encode_bit proto params (bit code i)))"

definition encode_with ::
  "irdb_protocol_params \<Rightarrow> irdb_entry \<Rightarrow> 32 word \<Rightarrow> error + 32 word list" where
  "encode_with params entry max_length =
     (if header_mark params > 0 \<and> 2 > unat max_length then Inl ENOMEM
      else
        let out0 = (if header_mark params > 0
                    then [header_mark params, header_space params] else []);
            ct = assemble_code params entry
        in case encode_bits (protocol entry) params (fst ct) (snd ct) (unat max_length) out0 of
             Inl e \<Rightarrow> Inl e
           | Inr out1 \<Rightarrow>
               if trailer_mark params > 0
               then (if length out1 + 1 > unat max_length then Inl ENOMEM
                     else Inr (out1 @ [trailer_mark params]))
               else Inr out1)"

text \<open>
  \<open>irdb_encode_to_raw\<close>.  The pointer arguments are present (the \<open>-EINVAL\<close> exit for
  a null pointer is outside the model); the result is the written part of
  \<open>timings_out\<close>, whose length is \<open>*length_out\<close>.
\<close>

definition irdb_encode_to_raw :: "irdb_entry \<Rightarrow> 32 word \<Rightarrow> error + 32 word list" where
  "irdb_encode_to_raw entry max_length =
     (case irdb_get_protocol_params (protocol entry) of
        None \<Rightarrow> Inl ENOTSUP
      | Some params \<Rightarrow> encode_with params entry max_length)"

subsection \<open>Decoding\<close>

text \<open>\<open>timing_match\<close>, in 32-bit unsigned arithmetic; \<open>TOLERANCE_PERCENT\<close> is 20.\<close>

definition timing_match :: "32 word \<Rightarrow> 32 word \<Rightarrow> bool" where
  "timing_match measured expected =
     (if expected = 0 then measured = 0
      else let tolerance = expected * 20 div 100
           in measured \<ge> expected - tolerance \<and> measured \<le> expected + tolerance)"

text \<open>One step of the bit loop: the bit read from two durations, or \<open>None\<close> at a \<open>break\<close>.\<close>

definition decode_bit ::
  "16 word \<Rightarrow> irdb_protocol_params \<Rightarrow> 32 word \<Rightarrow> 32 word \<Rightarrow> bool option" where
  "decode_bit proto params t0 t1 =
     (if proto = IRDB_PROTOCOL_RC5 then
        (if timing_match t0 (bit_mark params) \<and> timing_match t1 (bit_0_space params)
         then Some False
         else if timing_match t0 (bit_0_space params) \<and> timing_match t1 (bit_mark params)
         then Some True
         else None)
      else
        (if \<not> timing_match t0 (bit_mark params) then None
         else if timing_match t1 (bit_0_space params) then Some False
         else if timing_match t1 (bit_1_space params) then Some True
         else None))"

text \<open>
  The loop \<open>while (idx + 1 < length && bits_decoded < total_bits)\<close>; it returns
  \<open>decoded\<close> and \<open>bits_decoded\<close>.  \<open>length\<close> is the length of the list of timings.
\<close>

function decode_bits ::
  "16 word \<Rightarrow> irdb_protocol_params \<Rightarrow> 32 word list \<Rightarrow> nat \<Rightarrow> 64 word \<Rightarrow> nat \<Rightarrow> nat
     \<Rightarrow> 64 word \<times> nat" where
  "decode_bits proto params timings idx decoded bits_decoded total_bits =
     (if idx + 1 < length timings \<and> bits_decoded < total_bits then
        (case decode_bit proto params (timings ! idx) (timings ! (idx + 1)) of
           None \<Rightarrow> (decoded, bits_decoded)
         | Some bit_value \<Rightarrow>
             decode_bits proto params timings (idx + 2)
               (push_bit 1 decoded OR (if bit_value then 1 else 0))
               (bits_decoded + 1) total_bits)
      else (decoded, bits_decoded))"
  by pat_completeness auto
termination
  by (relation "measure (\<lambda>(proto, params, timings, idx, decoded, bits_decoded, total_bits).
                  total_bits - bits_decoded)") auto

declare decode_bits.simps [simp del]

text \<open>
  The body of the loop over the database entries: whether the timings decode, with the
  parameters of the entry's protocol, to the fields of the entry.
\<close>

definition entry_matches :: "irdb_entry \<Rightarrow> 32 word list \<Rightarrow> bool" where
  "entry_matches entry timings =
     (case irdb_get_protocol_params (protocol entry) of
        None \<Rightarrow> False
      | Some params \<Rightarrow>
          if header_mark params > 0 \<and> 2 > length timings then False
          else if header_mark params > 0 \<and>
                  (\<not> timing_match (timings ! 0) (header_mark params) \<or>
                   \<not> timing_match (timings ! 1) (header_space params)) then False
          else
            let idx = (if header_mark params > 0 then 2 else 0);
                total_bits = unat (device_bits params) + unat (subdevice_bits params)
                               + unat (function_bits params)
                               + (if protocol entry = IRDB_PROTOCOL_NEC1 then 8 else 0);
                r = decode_bits (protocol entry) params timings idx 0 0 total_bits
            in if snd r \<noteq> total_bits then False
               else
                 let decoded0 = fst r;
                     fn = (ucast (decoded0 AND scast (field_mask (function_bits params)))
                             :: 16 word);
                     decoded1 = drop_bit (unat (function_bits params)) decoded0;
                     decoded2 = (if protocol entry = IRDB_PROTOCOL_NEC1
                                 then drop_bit 8 decoded1 else decoded1);
                     sub = (if subdevice_bits params > 0
                            then (ucast (decoded2 AND scast (field_mask (subdevice_bits params)))
                                    :: 16 word)
                            else 0);
                     decoded3 = (if subdevice_bits params > 0
                                 then drop_bit (unat (subdevice_bits params)) decoded2
                                 else decoded2);
                     dev = (ucast (decoded3 AND scast (field_mask (device_bits params)))
                              :: 16 word)
                 in dev = device entry \<and> sub = subdevice entry \<and> fn = function_code entry)"

text \<open>
  \<open>irdb_decode_from_raw\<close>: the database is the list of its entries, the timings a
  list whose length is \<open>length\<close>.  The first entry that matches is copied out.
\<close>

definition irdb_decode_from_raw :: "irdb_entry list \<Rightarrow> 32 word list \<Rightarrow> error + irdb_entry" where
  "irdb_decode_from_raw db timings =
     (if length timings < 4 then Inl EINVAL
      else case find (\<lambda>entry. entry_matches entry timings) db of
             None \<Rightarrow> Inl ENOENT
           | Some entry \<Rightarrow> Inr entry)"

section \<open>Learned signals (ir\_learning.h, ir\_learning.c)\<close>

subsection \<open>Data\<close>

text \<open>
  \<open>ir_learned_signal_t\<close>.  \<open>timings\<close> is a pointer to a buffer of durations:
  \<open>None\<close> is the null pointer, \<open>Some buf\<close> a buffer with the contents \<open>buf\<close>.
\<close>

record ir_learned_signal =
  sig_name :: string
  timings :: "32 word list option"
  timing_count :: "16 word"
  carrier_freq :: "32 word"
  total_duration_us :: "32 word"
  valid :: bool

text \<open>
  A read of \<open>signal->timings[i]\<close>.  Reading through a null pointer or past the end
  of the buffer has no defined result in C; it is \<open>None\<close> here.
\<close>

definition read_timing :: "ir_learned_signal \<Rightarrow> nat \<Rightarrow> 32 word option" where
  "read_timing s i =
     (case timings s of
        None \<Rightarrow> None
      | Some buf \<Rightarrow> if i < length buf then Some (buf ! i) else None)"

datatype ir_learn_status =
  IR_LEARN_IDLE | IR_LEARN_WAITING | IR_LEARN_RECEIVING | IR_LEARN_COMPLETED
  | IR_LEARN_TIMEOUT | IR_LEARN_ERROR

record ir_signal_analysis =
  avg_mark :: "32 word"
  avg_space :: "32 word"
  min_pulse :: "32 word"
  max_pulse :: "32 word"
  pulse_count :: "32 word"
  estimated_freq :: "32 word"

subsection \<open>Analysis\<close>

text \<open>The accumulators of the loop of \<open>ir_learning_analyze\<close>.\<close>

record analyze_acc =
  acc_min :: "32 word"
  acc_max :: "32 word"
  mark_sum :: "64 word"
  space_sum :: "64 word"
  mark_count :: "32 word"
  space_count :: "32 word"

definition analyze_step :: "nat \<Rightarrow> 32 word \<Rightarrow> analyze_acc \<Rightarrow> analyze_acc" where
  "analyze_step i duration a =
     (let a1 = (if duration < acc_min a then a\<lparr>acc_min := duration\<rparr> else a);
          a2 = (if duration > acc_max a1 then a1\<lparr>acc_max := duration\<rparr> else a1)
      in if i mod 2 = 0
         then a2\<lparr>mark_sum := mark_sum a2 + ucast duration, mark_count := mark_count a2 + 1\<rparr>
         else a2\<lparr>space_sum := space_sum a2 + ucast duration,
                 space_count := space_count a2 + 1\<rparr>)"

text \<open>
  The loop \<open>for (uint16_t i = 0; i < signal->timing_count; i++)\<close>; \<open>n\<close> is
  \<open>timing_count\<close>, at most 65535, so \<open>i\<close> does not wrap.
\<close>

function analyze_loop ::
  "ir_learned_signal \<Rightarrow> nat \<Rightarrow> nat \<Rightarrow> analyze_acc \<Rightarrow> analyze_acc option" where
  "analyze_loop s i n a =
     (if i < n then
        (case read_timing s i of
           None \<Rightarrow> None
         | Some duration \<Rightarrow> analyze_loop s (i + 1) n (analyze_step i duration a))
      else Some a)"
  by pat_completeness auto
termination
  by (relation "measure (\<lambda>(s, i, n, a). n - i)") auto

declare analyze_loop.simps [simp del]

text \<open>The rounding of the estimate to a common carrier frequency, an if-else chain.\<close>

definition snap_freq :: "32 word \<Rightarrow> 32 word" where
  "snap_freq f =
     (if f > 35000 \<and> f < 41000 then 38000
      else if f > 33000 \<and> f < 37000 then 36000
      else if f > 38000 \<and> f < 42000 then 40000
      else f)"

text \<open>
  \<open>ir_learning_analyze\<close>.  \<open>analysis->min_pulse * 2\<close> is a 32-bit product; the
  division by it has no defined result when it is zero.
\<close>

definition ir_learning_analyze :: "ir_learned_signal \<Rightarrow> error + ir_signal_analysis" where
  "ir_learning_analyze s =
     (if \<not> valid s then Inl EINVAL
      else
        case analyze_loop s 0 (unat (timing_count s))
               \<lparr>acc_min = 0xFFFFFFFF, acc_max = 0, mark_sum = 0, space_sum = 0,
                mark_count = 0, space_count = 0\<rparr> of
          None \<Rightarrow> Inl BadPointer
        | Some a \<Rightarrow>
            let an0 = \<lparr>avg_mark = 0, avg_space = 0, min_pulse = acc_min a,
                       max_pulse = acc_max a, pulse_count = ucast (timing_count s),
                       estimated_freq = 0\<rparr>;
                an1 = (if mark_count a > 0
                       then an0\<lparr>avg_mark := ucast (mark_sum a div ucast (mark_count a))\<rparr>
                       else an0);
                an2 = (if space_count a > 0
                       then an1\<lparr>avg_space := ucast (space_sum a div ucast (space_count a))\<rparr>
                       else an1)
            in if min_pulse an2 > 0
               then (if min_pulse an2 * 2 = 0 then Inl DivisionByZero
                     else Inr (an2\<lparr>estimated_freq :=
                                  snap_freq (1000000 div (min_pulse an2 * 2))\<rparr>))
               else Inr an2)"

subsection \<open>Comparison\<close>

text \<open>
  The loop \<open>for (uint32_t i = 0; i < min_len; i++)\<close> of \<open>ir_learning_compare\<close>;
  \<open>matches\<close> stays below 65536.
\<close>

definition timing_close :: "32 word \<Rightarrow> 32 word \<Rightarrow> bool" where
  "timing_close t1 t2 = ((if t1 > t2 then t1 - t2 else t2 - t1) \<le> 200)"

function compare_loop ::
  "ir_learned_signal \<Rightarrow> ir_learned_signal \<Rightarrow> nat \<Rightarrow> nat \<Rightarrow> nat \<Rightarrow> nat option" where
  "compare_loop s1 s2 i min_len matches =
     (if i < min_len then
        (case (read_timing s1 i, read_timing s2 i) of
           (Some t1, Some t2) \<Rightarrow>
             compare_loop s1 s2 (i + 1) min_len
               (if timing_close t1 t2 then matches + 1 else matches)
         | _ \<Rightarrow> None)
      else Some matches)"
  by pat_completeness auto
termination
  by (relation "measure (\<lambda>(s1, s2, i, min_len, matches). min_len - i)") auto

declare compare_loop.simps [simp del]

text \<open>
  \<open>ir_learning_compare\<close>; the result is \<open>*similarity\<close>, an \<open>uint8_t\<close>.  The
  counts are converted to \<open>int\<close> for the difference; the quotient is computed in
  32 bits and has no defined result when \<open>min_len\<close> is zero.
\<close>

definition ir_learning_compare ::
  "ir_learned_signal \<Rightarrow> ir_learned_signal \<Rightarrow> error + 8 word" where
  "ir_learning_compare sig1 sig2 =
     (if \<not> valid sig1 \<or> \<not> valid sig2 then Inl EINVAL
      else if \<bar>uint (timing_count sig1) - uint (timing_count sig2)\<bar> > 10 then Inr 0
      else
        let min_len = (if timing_count sig1 < timing_count sig2
                       then unat (timing_count sig1) else unat (timing_count sig2))
        in case compare_loop sig1 sig2 0 min_len 0 of
             None \<Rightarrow> Inl BadPointer
           | Some matches \<Rightarrow>
               if min_len = 0 then Inl DivisionByZero
               else Inr (ucast ((word_of_nat matches * 100 :: 32 word) div word_of_nat min_len)))"

subsection \<open>Capture engine\<close>

text \<open>
  The static \<open>learn_state\<close>, with what the engine does to its collaborators made
  visible: \<open>timeout_timer\<close> and \<open>end_timer\<close> tell whether the timer is running,
  \<open>rx_running\<close> whether the hardware edge source delivers edges, and
  \<open>notifications\<close> lists the calls of the callback (status and signal argument) in
  order.  \<open>callback\<close> tells whether a callback is registered.
\<close>

record learn_state =
  current_signal :: ir_learned_signal
  callback :: bool
  timeout_timer :: bool
  end_timer :: bool
  active :: bool
  edge_count :: "32 word"
  start_time_us :: "32 word"
  rx_running :: bool
  notifications :: "(ir_learn_status \<times> ir_learned_signal option) list"

abbreviation (input) IR_LEARNING_MAX_EDGES :: nat where "IR_LEARNING_MAX_EDGES \<equiv> 512"
abbreviation (input) MIN_PULSE_US :: "32 word" where "MIN_PULSE_US \<equiv> 50"

definition notify ::
  "ir_learn_status \<Rightarrow> ir_learned_signal option \<Rightarrow> learn_state \<Rightarrow> learn_state" where
  "notify status sg st =
     (if callback st then st\<lparr>notifications := notifications st @ [(status, sg)]\<rparr> else st)"

definition signal_end_handler :: "learn_state \<Rightarrow> learn_state" where
  "signal_end_handler st =
     (if \<not> active st \<or> edge_count st = 0 then st
      else
        let sg = (current_signal st)\<lparr>timing_count := ucast (edge_count st), valid := True\<rparr>
        in notify IR_LEARN_COMPLETED (Some sg)
             (st\<lparr>current_signal := sg, active := False, rx_running := False\<rparr>))"

definition learning_timeout_handler :: "learn_state \<Rightarrow> learn_state" where
  "learning_timeout_handler st =
     (if \<not> active st then st
      else notify IR_LEARN_TIMEOUT None (st\<lparr>active := False, rx_running := False\<rparr>))"

text \<open>
  \<open>learning_rx_callback\<close> for a pulse of the given duration; \<open>now_us\<close> is the
  reading of the cycle counter.  The write \<open>timings[edge_count++]\<close> is guarded by
  \<open>edge_count < IR_LEARNING_MAX_EDGES\<close>, the size of the buffer that
  \<open>ir_learning_init\<close> allocates.
\<close>

definition learning_rx_callback :: "32 word \<Rightarrow> 32 word \<Rightarrow> learn_state \<Rightarrow> learn_state" where
  "learning_rx_callback duration_us now_us st =
     (if \<not> active st then st
      else if duration_us < MIN_PULSE_US then st
      else case timings (current_signal st) of
        None \<Rightarrow> notify IR_LEARN_ERROR None (st\<lparr>active := False, rx_running := False\<rparr>)
      | Some buf \<Rightarrow>
          let st1 = (if edge_count st = 0
                     then notify IR_LEARN_RECEIVING None (st\<lparr>start_time_us := now_us\<rparr>)
                     else st)
          in if unat (edge_count st1) \<ge> IR_LEARNING_MAX_EDGES
             then signal_end_handler (st1\<lparr>end_timer := False\<rparr>)
             else st1\<lparr>current_signal :=
                        (current_signal st1)\<lparr>timings :=
                           Some (buf[unat (edge_count st1) := duration_us])\<rparr>,
                      edge_count := edge_count st1 + 1,
                      end_timer := True\<rparr>)"

text \<open>The expiry of a one-shot timer runs its handler.\<close>

definition end_timer_expiry :: "learn_state \<Rightarrow> learn_state" where
  "end_timer_expiry st =
     (if end_timer st then signal_end_handler (st\<lparr>end_timer := False\<rparr>) else st)"

definition timeout_timer_expiry :: "learn_state \<Rightarrow> learn_state" where
  "timeout_timer_expiry st =
     (if timeout_timer st then learning_timeout_handler (st\<lparr>timeout_timer := False\<rparr>)
      else st)"

definition empty_signal :: ir_learned_signal where
  "empty_signal = \<lparr>sig_name = [], timings = None, timing_count = 0, carrier_freq = 0,
                   total_duration_us = 0, valid = False\<rparr>"

text \<open>\<open>ir_learning_init\<close>; \<open>alloc_ok\<close> tells whether \<open>k_malloc\<close> succeeds.\<close>

definition ir_learning_init :: "bool \<Rightarrow> (error + unit) \<times> learn_state" where
  "ir_learning_init alloc_ok =
     (let st0 = \<lparr>current_signal = empty_signal, callback = False, timeout_timer = False,
                 end_timer = False, active = False, edge_count = 0, start_time_us = 0,
                 rx_running = False, notifications = []\<rparr>
      in if alloc_ok
         then (Inr (), st0\<lparr>current_signal :=
                 empty_signal\<lparr>timings := Some (replicate IR_LEARNING_MAX_EDGES 0)\<rparr>\<rparr>)
         else (Inl ENOMEM, st0))"

text \<open>
  \<open>ir_learning_start\<close>; \<open>rx_start\<close> is the result of \<open>ir_hal_rx_start\<close>
  (\<open>None\<close> for success), which marks the edge source active before it configures
  the interrupt.
\<close>

definition ir_learning_start ::
  "string option \<Rightarrow> bool \<Rightarrow> 32 word \<Rightarrow> error option \<Rightarrow> learn_state
     \<Rightarrow> (error + unit) \<times> learn_state" where
  "ir_learning_start signal_name cb timeout_ms rx_start st =
     (if active st then (Inl EBUSY, st)
      else case timings (current_signal st) of
        None \<Rightarrow> (Inl EINVAL, st)
      | Some buf \<Rightarrow>
          let sg = empty_signal\<lparr>timings := Some (replicate IR_LEARNING_MAX_EDGES 0),
                     sig_name := (case signal_name of None \<Rightarrow> [] | Some n \<Rightarrow> take 31 n)\<rparr>;
              st1 = st\<lparr>current_signal := sg, edge_count := 0, callback := cb,
                      active := True, rx_running := True\<rparr>
          in case rx_start of
               Some e \<Rightarrow> (Inl e, st1\<lparr>active := False\<rparr>)
             | None \<Rightarrow>
                 (Inr (), notify IR_LEARN_WAITING None (st1\<lparr>timeout_timer := True\<rparr>)))"

definition ir_learning_stop :: "learn_state \<Rightarrow> (error + unit) \<times> learn_state" where
  "ir_learning_stop st =
     (if \<not> active st then (Inr (), st)
      else (Inr (), st\<lparr>active := False, timeout_timer := False, end_timer := False,
                      rx_running := False\<rparr>))"

text \<open>The states of the engine: after initialisation, and after any operation or event.\<close>

inductive reachable :: "learn_state \<Rightarrow> bool" where
  r_init: "reachable (snd (ir_learning_init alloc_ok))"
| r_start: "reachable st \<Longrightarrow> reachable (snd (ir_learning_start nm cb tmo rx st))"
| r_stop: "reachable st \<Longrightarrow> reachable (snd (ir_learning_stop st))"
| r_edge: "reachable st \<Longrightarrow> reachable (learning_rx_callback d now st)"
| r_end: "reachable st \<Longrightarrow> reachable (end_timer_expiry st)"
| r_timeout: "reachable st \<Longrightarrow> reachable (timeout_timer_expiry st)"

section \<open>Database cache (irdb\_loader.h, irdb\_loader.c)\<close>

subsection \<open>Data\<close>

text \<open>
  \<open>irdb_database_t\<close>.  \<open>entries\<close> is a pointer to an allocated array: \<open>None\<close>
  is the null pointer, \<open>Some a\<close> the address of a block of the store.  The character
  arrays hold the string up to the first zero byte.
\<close>

record irdb_database =
  manufacturer :: string
  device_type :: string
  entries :: "nat option"
  entry_count :: "32 word"

record irdb_cache_entry =
  path :: string
  database :: irdb_database
  last_access :: "32 word"
  cache_valid :: bool

text \<open>
  The static array \<open>cache\<close> of \<open>IRDB_CACHE_SIZE\<close> slots, and the allocated blocks
  with their contents.  An address outside the domain of \<open>heap\<close> is not allocated.
\<close>

record cache_state =
  cache :: "irdb_cache_entry list"
  heap :: "nat \<Rightarrow> irdb_entry list option"

abbreviation (input) IRDB_CACHE_SIZE :: nat where "IRDB_CACHE_SIZE \<equiv> 4"

definition zero_database :: irdb_database where
  "zero_database = \<lparr>manufacturer = [], device_type = [], entries = None, entry_count = 0\<rparr>"

definition zero_cache_entry :: irdb_cache_entry where
  "zero_cache_entry = \<lparr>path = [], database = zero_database, last_access = 0,
                        cache_valid = False\<rparr>"

text \<open>The zero-initialised static array, with nothing allocated.\<close>

definition initial_cache :: cache_state where
  "initial_cache = \<lparr>cache = replicate IRDB_CACHE_SIZE zero_cache_entry, heap = (\<lambda>a. None)\<rparr>"

subsection \<open>Operations\<close>

text \<open>
  \<open>irdb_free_database\<close> on a database held in a slot: a non-null \<open>entries\<close> is
  freed and the structure zeroed; with a null \<open>entries\<close> nothing happens.
\<close>

definition irdb_free_database ::
  "irdb_database \<Rightarrow> (nat \<Rightarrow> irdb_entry list option)
     \<Rightarrow> irdb_database \<times> (nat \<Rightarrow> irdb_entry list option)" where
  "irdb_free_database db h =
     (case entries db of
        None \<Rightarrow> (db, h)
      | Some a \<Rightarrow> (zero_database, h(a := None)))"

text \<open>
  \<open>strncpy (dst, src, n)\<close> into an array whose byte \<open>n\<close> is zero and stays so:
  the string read back is the first \<open>n\<close> characters of \<open>src\<close>.
\<close>

definition strncpy :: "nat \<Rightarrow> string \<Rightarrow> string" where
  "strncpy n src = take n src"

text \<open>
  \<open>irdb_cache_get\<close>: the index of the slot whose database is handed out, and the
  cache with that slot's timestamp set to \<open>now\<close>, the value of \<open>k_uptime_get_32\<close>.
\<close>

definition irdb_cache_get ::
  "string \<Rightarrow> 32 word \<Rightarrow> cache_state \<Rightarrow> (error + nat) \<times> cache_state" where
  "irdb_cache_get key now st =
     (case find (\<lambda>i. cache_valid (cache st ! i) \<and> path (cache st ! i) = key)
             [0..<IRDB_CACHE_SIZE] of
        None \<Rightarrow> (Inl ENOENT, st)
      | Some i \<Rightarrow>
          (Inr i, st\<lparr>cache := (cache st)[i := (cache st ! i)\<lparr>last_access := now\<rparr>]\<rparr>))"

text \<open>
  The scan of \<open>irdb_cache_put\<close> for the slot to fill; it is started with
  \<open>target_idx = 0\<close> and \<open>oldest_time = UINT32_MAX\<close>.
\<close>

function select_loop :: "irdb_cache_entry list \<Rightarrow> nat \<Rightarrow> nat \<Rightarrow> 32 word \<Rightarrow> nat" where
  "select_loop c i target_idx oldest_time =
     (if i < IRDB_CACHE_SIZE then
        (if \<not> cache_valid (c ! i) then i
         else if last_access (c ! i) < oldest_time
         then select_loop c (i + 1) i (last_access (c ! i))
         else select_loop c (i + 1) target_idx oldest_time)
      else target_idx)"
  by pat_completeness auto
termination
  by (relation "measure (\<lambda>(c, i, target_idx, oldest_time). IRDB_CACHE_SIZE - i)") auto

declare select_loop.simps [simp del]

definition select_target :: "irdb_cache_entry list \<Rightarrow> nat" where
  "select_target c = select_loop c 0 0 0xFFFFFFFF"

text \<open>
  What \<open>memcpy\<close> reads from the caller's database: its first \<open>entry_count\<close>
  entries.  Nothing is read when the count is zero; otherwise the pointer must be the
  address of a block that long.
\<close>

definition source_entries ::
  "irdb_database \<Rightarrow> (nat \<Rightarrow> irdb_entry list option) \<Rightarrow> irdb_entry list option" where
  "source_entries db h =
     (if entry_count db = 0 then Some []
      else case entries db of
        None \<Rightarrow> None
      | Some a \<Rightarrow>
          (case h a of
             None \<Rightarrow> None
           | Some es \<Rightarrow> if unat (entry_count db) \<le> length es
                        then Some (take (unat (entry_count db)) es) else None))"

text \<open>
  The clean-up of the old entry in \<open>irdb_cache_put\<close>: the database of a valid slot
  is freed.  The result is the database left in the slot and the store.
\<close>

definition free_old ::
  "irdb_cache_entry \<Rightarrow> (nat \<Rightarrow> irdb_entry list option)
     \<Rightarrow> irdb_database \<times> (nat \<Rightarrow> irdb_entry list option)" where
  "free_old slot h =
     (if cache_valid slot then irdb_free_database (database slot) h else (database slot, h))"

text \<open>
  The argument \<open>db\<close> of \<open>irdb_cache_put\<close> is a pointer.  It points either to a
  database that the caller owns, given by its contents, or to the database of a cache
  slot, \<open>&cache[i].database\<close>, which is what \<open>irdb_cache_get\<close> hands out.  The
  database of a slot is read from the cache as it is at the time of the read.
\<close>

datatype irdb_database_ptr = Caller irdb_database | Slot nat

definition db_in_range :: "irdb_database_ptr \<Rightarrow> bool" where
  "db_in_range db = (case db of Caller d \<Rightarrow> True | Slot i \<Rightarrow> i < IRDB_CACHE_SIZE)"

definition read_db :: "irdb_database_ptr \<Rightarrow> irdb_cache_entry list \<Rightarrow> irdb_database" where
  "read_db db c = (case db of Caller d \<Rightarrow> d | Slot i \<Rightarrow> database (c ! i))"

text \<open>
  \<open>irdb_cache_put\<close>.  \<open>now\<close> is the value of \<open>k_uptime_get_32\<close>, \<open>alloc\<close>
  the result of \<open>k_malloc\<close>: \<open>None\<close> for a null pointer, \<open>Some a\<close> for the
  address of a new block.  The function reads \<open>db->entry_count\<close> after the clean-up of
  the old entry and after the path is written (the cache \<open>c1\<close>), and \<open>db->entries\<close>
  and the labels after the count and the new pointer are stored (the cache \<open>c2\<close>); when
  \<open>db\<close> is the database of the slot that is filled, these reads see what the function
  has written.  A slot pointer beyond the array is reported as \<open>BadPointer\<close>, and so
  is a source block that cannot be read: a null or dangling \<open>db->entries\<close> with a
  count that is not zero, which includes the new block itself, whose contents are
  indeterminate.
\<close>

definition irdb_cache_put ::
  "string \<Rightarrow> irdb_database_ptr \<Rightarrow> 32 word \<Rightarrow> nat option \<Rightarrow> cache_state
     \<Rightarrow> (error + unit) \<times> cache_state" where
  "irdb_cache_put key db now alloc st =
     (if \<not> db_in_range db then (Inl BadPointer, st)
      else
        let target_idx = select_target (cache st);
            slot = cache st ! target_idx;
            freed = free_old slot (heap st);
            c1 = (cache st)[target_idx := slot\<lparr>path := strncpy 127 key,
                                               database := fst freed\<rparr>];
            slot1 = slot\<lparr>path := strncpy 127 key,
                         database := (fst freed)\<lparr>entry_count := entry_count (read_db db c1),
                                                   entries := alloc\<rparr>\<rparr>;
            c2 = (cache st)[target_idx := slot1]
        in case alloc of
             None \<Rightarrow> (Inl ENOMEM, \<lparr>cache = c2, heap = snd freed\<rparr>)
           | Some a \<Rightarrow>
               (case source_entries (read_db db c2) (snd freed) of
                  None \<Rightarrow> (Inl BadPointer, \<lparr>cache = c2, heap = snd freed\<rparr>)
                | Some es \<Rightarrow>
                    let slot2 = slot1\<lparr>database := (database slot1)
                                  \<lparr>manufacturer := strncpy 63 (manufacturer (read_db db c2)),
                                   device_type := strncpy 63 (device_type (read_db db c2))\<rparr>,
                                last_access := now, cache_valid := True\<rparr>
                    in (Inr (), \<lparr>cache = (cache st)[target_idx := slot2],
                                 heap = (snd freed)(a := Some es)\<rparr>)))"

text \<open>\<open>irdb_cache_clear\<close>: the loop over the slots.\<close>

definition clear_slot :: "nat \<Rightarrow> cache_state \<Rightarrow> cache_state" where
  "clear_slot i st =
     (if cache_valid (cache st ! i)
      then let freed = irdb_free_database (database (cache st ! i)) (heap st)
           in \<lparr>cache = (cache st)[i := (cache st ! i)\<lparr>database := fst freed,
                                                      cache_valid := False\<rparr>],
               heap = snd freed\<rparr>
      else st)"

definition irdb_cache_clear :: "cache_state \<Rightarrow> cache_state" where
  "irdb_cache_clear st = fold clear_slot [0..<IRDB_CACHE_SIZE] st"

section \<open>Notions of the specification\<close>

text \<open>
  The bits of a field, most significant first: bit \<open>n - 1\<close> down to bit 0 of the
  stored 16-bit value.
\<close>

definition msb_first :: "nat \<Rightarrow> 16 word \<Rightarrow> bool list" where
  "msb_first n v = map (bit v) (rev [0..<n])"

text \<open>
  Pulse-distance encoding of a bit string: a mark of fixed duration, then the space of
  the bit's value.
\<close>

definition pulse_distance :: "irdb_protocol_params \<Rightarrow> bool list \<Rightarrow> 32 word list" where
  "pulse_distance params bs =
     concat (map (\<lambda>b. [bit_mark params,
                        if b then bit_1_space params else bit_0_space params]) bs)"

text \<open>The code word that the encoder assembles for an NEC1 entry.\<close>

definition nec1_code :: "irdb_entry \<Rightarrow> 64 word" where
  "nec1_code e =
     ((push_bit 24 (scast (ucast (device e) AND (255 :: 32 word))) OR
       push_bit 16 (scast (ucast (subdevice e) AND (255 :: 32 word)))) OR
      push_bit 8 (scast (ucast (function_code e) AND (255 :: 32 word)))) OR
     scast (NOT (ucast (function_code e) :: 32 word) AND 255)"

text \<open>
  Manchester encoding of a bit string: a one is the space duration followed by the mark
  duration, a zero the mark duration followed by the space duration.
\<close>

definition manchester :: "irdb_protocol_params \<Rightarrow> bool list \<Rightarrow> 32 word list" where
  "manchester params bs =
     concat (map (\<lambda>b. if b then [bit_0_space params, bit_mark params]
                       else [bit_mark params, bit_0_space params]) bs)"

text \<open>The code word that the encoder assembles for an RC5 entry.\<close>

definition rc5_code :: "irdb_entry \<Rightarrow> 64 word" where
  "rc5_code e =
     push_bit 6 (scast (ucast (device e) AND (31 :: 32 word))) OR
     scast (ucast (function_code e) AND (63 :: 32 word))"

text \<open>
  The round trip of the specification: an entry is encoded, and the timings are decoded
  against a database that holds this entry.
\<close>

definition round_trip :: "irdb_entry \<Rightarrow> 32 word \<Rightarrow> error + irdb_entry" where
  "round_trip entry max_length =
     (case irdb_encode_to_raw entry max_length of
        Inl e \<Rightarrow> Inl e
      | Inr ts \<Rightarrow> irdb_decode_from_raw [entry] ts)"

text \<open>
  The number of positions below \<open>n\<close> at which two pulse sequences differ by at most
  200 microseconds.
\<close>

definition matching_count :: "32 word list \<Rightarrow> 32 word list \<Rightarrow> nat \<Rightarrow> nat" where
  "matching_count b1 b2 n =
     length (filter (\<lambda>i. \<bar>uint (b1 ! i) - uint (b2 ! i)\<bar> \<le> 200) [0..<n])"

text \<open>
  The bounds that the capture engine keeps: the edge counter and the frozen length stay
  within the buffer, which has \<open>IR_LEARNING_MAX_EDGES\<close> places.
\<close>

definition capture_inv :: "learn_state \<Rightarrow> bool" where
  "capture_inv st \<longleftrightarrow>
     unat (edge_count st) \<le> IR_LEARNING_MAX_EDGES \<and>
     unat (timing_count (current_signal st)) \<le> IR_LEARNING_MAX_EDGES \<and>
     (\<forall>buf. timings (current_signal st) = Some buf \<longrightarrow> length buf = IR_LEARNING_MAX_EDGES)"

text \<open>
  A session in which the buffer is full: 512 edges are recorded and the engine is active.
\<close>

definition full_state :: learn_state where
  "full_state =
     \<lparr>current_signal = \<lparr>sig_name = ''tv'', timings = Some (replicate 512 600),
                          timing_count = 0, carrier_freq = 0, total_duration_us = 0,
                          valid = False\<rparr>,
      callback = True, timeout_timer = True, end_timer = True, active = True,
      edge_count = 512, start_time_us = 7, rx_running = True,
      notifications = [(IR_LEARN_WAITING, None), (IR_LEARN_RECEIVING, None)]\<rparr>"

text \<open>
  A session started after a successful initialisation, and its state after \<open>k\<close> edges
  of 600 microseconds.
\<close>

definition session_start :: learn_state where
  "session_start =
     snd (ir_learning_start (Some ''tv'') True 5000 None (snd (ir_learning_init True)))"

definition after_edges :: "nat \<Rightarrow> learn_state" where
  "after_edges k = ((learning_rx_callback 600 0) ^^ k) session_start"

text \<open>
  The slot that a least-recently-used policy fills: the first invalid slot if there is
  one, otherwise the slot with the smallest timestamp, and among several of those the one
  with the lowest index.
\<close>

definition lru_choice :: "irdb_cache_entry list \<Rightarrow> nat \<Rightarrow> bool" where
  "lru_choice c t \<longleftrightarrow>
     t < IRDB_CACHE_SIZE \<and>
     (if \<exists>j \<in> {0..<IRDB_CACHE_SIZE}. \<not> cache_valid (c ! j)
      then \<not> cache_valid (c ! t) \<and> (\<forall>j \<in> {0..<t}. cache_valid (c ! j))
      else (\<forall>j \<in> {0..<IRDB_CACHE_SIZE}. last_access (c ! t) \<le> last_access (c ! j)) \<and>
           (\<forall>j \<in> {0..<t}. last_access (c ! t) < last_access (c ! j)))"

text \<open>
  A slot is fully valid or fully invalid: a slot marked valid owns an allocated array of
  entries.
\<close>

definition slot_consistent :: "irdb_cache_entry \<Rightarrow> bool" where
  "slot_consistent s \<longleftrightarrow> (cache_valid s \<longrightarrow> entries (database s) \<noteq> None)"

text \<open>
  A cache whose four slots are valid, the slots 1 and 2 sharing the oldest timestamp, and a
  database of the caller with two entries.
\<close>

definition tv_entry :: "string \<Rightarrow> 16 word \<Rightarrow> irdb_entry" where
  "tv_entry nm f = \<lparr>function_name = nm, protocol = IRDB_PROTOCOL_NEC1, device = 7,
                     subdevice = 7, function_code = f\<rparr>"

definition full_cache :: cache_state where
  "full_cache =
     \<lparr>cache =
        [\<lparr>path = ''lg/tv'',
          database = \<lparr>manufacturer = ''lg'', device_type = ''tv'', entries = Some 1,
                      entry_count = 1\<rparr>,
          last_access = 40, cache_valid = True\<rparr>,
         \<lparr>path = ''sony/tv'',
          database = \<lparr>manufacturer = ''sony'', device_type = ''tv'', entries = Some 2,
                      entry_count = 1\<rparr>,
          last_access = 10, cache_valid = True\<rparr>,
         \<lparr>path = ''nec/tv'',
          database = \<lparr>manufacturer = ''nec'', device_type = ''tv'', entries = Some 3,
                      entry_count = 1\<rparr>,
          last_access = 10, cache_valid = True\<rparr>,
         \<lparr>path = ''jvc/tv'',
          database = \<lparr>manufacturer = ''jvc'', device_type = ''tv'', entries = Some 4,
                      entry_count = 1\<rparr>,
          last_access = 30, cache_valid = True\<rparr>],
      heap = (\<lambda>a. None)
               (1 := Some [tv_entry ''Power'' 12], 2 := Some [tv_entry ''Power'' 21],
                3 := Some [tv_entry ''Power'' 2], 4 := Some [tv_entry ''Power'' 23],
                9 := Some [tv_entry ''Power'' 8, tv_entry ''Mute'' 9])\<rparr>"

definition new_db :: irdb_database where
  "new_db = \<lparr>manufacturer = ''samsung'', device_type = ''tv'', entries = Some 9,
             entry_count = 2\<rparr>"

text \<open>The code word that the decoder accumulates from a bit string, first bit first.\<close>

definition shift_in :: "64 word \<Rightarrow> bool list \<Rightarrow> 64 word" where
  "shift_in d bs = foldl (\<lambda>d b. push_bit 1 d OR (if b then 1 else 0)) d bs"

text \<open>The code words that the encoder assembles for NEC2 and Samsung32 entries.\<close>

definition nec2_code :: "irdb_entry \<Rightarrow> 64 word" where
  "nec2_code e =
     push_bit 8 (scast (ucast (device e) AND (65535 :: 32 word))) OR
     scast (ucast (function_code e) AND (255 :: 32 word))"

definition samsung32_code :: "irdb_entry \<Rightarrow> 64 word" where
  "samsung32_code e =
     (push_bit 16 (scast (ucast (device e) AND (255 :: 32 word))) OR
      push_bit 8 (scast (ucast (subdevice e) AND (255 :: 32 word)))) OR
     scast (ucast (function_code e) AND (255 :: 32 word))"

text \<open>
  The frames of the entries whose fields are all zero, for RC5, Sony12 and Sony15.
\<close>

definition rc5_zero_frame :: "32 word list" where
  "rc5_zero_frame = concat (map (\<lambda>i. encode_bit IRDB_PROTOCOL_RC5 rc5_params False) (rev [0..<11]))"

definition sony12_zero_frame :: "32 word list" where
  "sony12_zero_frame = [2400, 600] @
     concat (map (\<lambda>i. encode_bit IRDB_PROTOCOL_SONY12 sony12_params False) (rev [0..<12]))"

definition sony15_zero_frame :: "32 word list" where
  "sony15_zero_frame = [2400, 600] @
     concat (map (\<lambda>i. encode_bit IRDB_PROTOCOL_SONY15 sony15_params False) (rev [0..<15]))"

text \<open>The shortest duration of a pulse sequence, \<open>UINT32_MAX\<close> for the empty one.\<close>

definition min_duration :: "32 word list \<Rightarrow> 32 word" where
  "min_duration ds = foldl min 0xFFFFFFFF ds"

text \<open>A cache whose four slots are valid and carry the same timestamp.\<close>

definition tie_cache :: cache_state where
  "tie_cache =
     \<lparr>cache =
        [\<lparr>path = ''lg/tv'',
          database = \<lparr>manufacturer = ''lg'', device_type = ''tv'', entries = Some 1,
                      entry_count = 1\<rparr>,
          last_access = 10, cache_valid = True\<rparr>,
         \<lparr>path = ''sony/tv'',
          database = \<lparr>manufacturer = ''sony'', device_type = ''tv'', entries = Some 2,
                      entry_count = 1\<rparr>,
          last_access = 10, cache_valid = True\<rparr>,
         \<lparr>path = ''nec/tv'',
          database = \<lparr>manufacturer = ''nec'', device_type = ''tv'', entries = Some 3,
                      entry_count = 1\<rparr>,
          last_access = 10, cache_valid = True\<rparr>,
         \<lparr>path = ''jvc/tv'',
          database = \<lparr>manufacturer = ''jvc'', device_type = ''tv'', entries = Some 4,
                      entry_count = 1\<rparr>,
          last_access = 10, cache_valid = True\<rparr>],
      heap = (\<lambda>a. None)
               (1 := Some [tv_entry ''Power'' 12], 2 := Some [tv_entry ''Power'' 21],
                3 := Some [tv_entry ''Power'' 2], 4 := Some [tv_entry ''Power'' 23],
                9 := Some [tv_entry ''Power'' 8, tv_entry ''Mute'' 9])\<rparr>"

section \<open>Properties of the codec\<close>

subsection \<open>The bit loop of the encoder\<close>

lemma encode_bit_length: "length (encode_bit proto params b) = 2"
  by (simp add: encode_bit_def)

lemma encode_bits_ok:
  "length out + 2 * n \<le> m \<Longrightarrow>
   encode_bits proto params code n m out =
     Inr (out @ concat (map (\<lambda>i. encode_bit proto params (bit code i)) (rev [0..<n])))"
proof (induction n arbitrary: out)
  case 0
  then show ?case by simp
next
  case (Suc n)
  then show ?case by (simp add: encode_bit_length)
qed

lemma rev_upt_32:
  "rev [0..<32] = [31,30,29,28,27,26,25,24,23,22,21,20,19,18,17,16,
                   15,14,13,12,11,10,9,8,7,6,5,4,3,2,1,0::nat]"
  by code_simp

lemma rev_upt_8: "rev [0..<8] = [7,6,5,4,3,2,1,0::nat]"
  by code_simp

subsection \<open>NEC1 frames\<close>

lemma get_params_nec1: "irdb_get_protocol_params IRDB_PROTOCOL_NEC1 = Some nec1_params"
  by (simp add: irdb_get_protocol_params_def protocol_params_def nec1_params_def)

lemma assemble_code_nec1:
  "protocol e = IRDB_PROTOCOL_NEC1 \<Longrightarrow> assemble_code nec1_params e = (nec1_code e, 32)"
  by (simp add: assemble_code_def nec1_params_def add_field_def field_mask_def Let_def
        nec1_code_def)

lemma nec1_code_bits:
  "map (bit (nec1_code e)) (rev [0..<32]) =
     msb_first 8 (device e) @ msb_first 8 (subdevice e) @ msb_first 8 (function_code e)
       @ msb_first 8 (NOT (function_code e))"
  unfolding rev_upt_32 msb_first_def rev_upt_8 nec1_code_def
  by (simp add: bit_simps)

lemma sony12_not_le_nec1: "\<not> IRDB_PROTOCOL_SONY12 \<le> IRDB_PROTOCOL_NEC1"
  by (simp add: word_le_nat_alt)

lemma nec1_bit_pairs:
  "concat (map (\<lambda>i. encode_bit IRDB_PROTOCOL_NEC1 nec1_params (bit code i)) is) =
     pulse_distance nec1_params (map (bit code) is)"
  by (simp add: pulse_distance_def encode_bit_def comp_def sony12_not_le_nec1)

text \<open>
  Claim C2.  For every NEC1 entry, and an output buffer that holds the 67 durations of
  the frame, \<open>irdb_encode_to_raw\<close> writes the header, then in pulse-distance encoding
  and most significant bit first the low 8 bits of the device, of the subdevice and of
  the function, then the 8-bit complement of the function, and last the trailer mark.
\<close>

theorem nec1_encode_layout:
  assumes "protocol e = IRDB_PROTOCOL_NEC1" and "67 \<le> unat max_length"
  shows "irdb_encode_to_raw e max_length =
           Inr ([9000, 4500]
                @ pulse_distance nec1_params
                    (msb_first 8 (device e) @ msb_first 8 (subdevice e)
                     @ msb_first 8 (function_code e) @ msb_first 8 (NOT (function_code e)))
                @ [560])"
proof -
  let ?out0 = "[9000, 4500 :: 32 word]"
  have hdr: "header_mark nec1_params = 9000" "header_space nec1_params = 4500"
    "trailer_mark nec1_params = 560"
    by (simp_all add: nec1_params_def)
  have "length ?out0 + 2 * 32 \<le> unat max_length"
    using assms(2) by simp
  then have bits:
    "encode_bits IRDB_PROTOCOL_NEC1 nec1_params (nec1_code e) 32 (unat max_length) ?out0 =
       Inr (?out0 @ pulse_distance nec1_params (map (bit (nec1_code e)) (rev [0..<32])))"
    by (simp only: encode_bits_ok nec1_bit_pairs)
  have len: "length (pulse_distance nec1_params (map (bit (nec1_code e)) (rev [0..<32]))) = 64"
    unfolding rev_upt_32 by (simp add: pulse_distance_def)
  have "encode_with nec1_params e max_length =
      Inr (?out0 @ pulse_distance nec1_params (map (bit (nec1_code e)) (rev [0..<32])) @ [560])"
    using assms len
    by (simp add: encode_with_def hdr assemble_code_nec1 bits Let_def)
  then show ?thesis
    using assms(1) by (simp add: irdb_encode_to_raw_def get_params_nec1 nec1_code_bits)
qed

text \<open>The frame of function 12 for device 7, subdevice 7: 12 is 00001100, its complement 11110011.\<close>

theorem nec1_encode_layout_witness:
  "irdb_encode_to_raw \<lparr>function_name = ''Power'', protocol = IRDB_PROTOCOL_NEC1, device = 7,
       subdevice = 7, function_code = 12\<rparr> 100 =
     Inr ([9000, 4500,
           560, 560, 560, 560, 560, 560, 560, 560, 560, 560, 560, 1690, 560, 1690, 560, 1690,
           560, 560, 560, 560, 560, 560, 560, 560, 560, 560, 560, 1690, 560, 1690, 560, 1690,
           560, 560, 560, 560, 560, 560, 560, 560, 560, 1690, 560, 1690, 560, 560, 560, 560,
           560, 1690, 560, 1690, 560, 1690, 560, 1690, 560, 560, 560, 560, 560, 1690, 560, 1690,
           560])"
  using nec1_encode_layout [of "\<lparr>function_name = ''Power'', protocol = IRDB_PROTOCOL_NEC1,
       device = 7, subdevice = 7, function_code = 12\<rparr>" 100]
  by (simp add: msb_first_def rev_upt_8 pulse_distance_def nec1_params_def)

subsection \<open>Tolerance matching\<close>

lemma tolerance_unat:
  assumes "unat (expected :: 32 word) * 20 < 2 ^ 32"
  shows "unat (expected * 20 div 100) = unat expected * 20 div 100"
proof -
  have "unat (expected * 20) = unat expected * 20"
    using assms by (simp add: unat_word_ariths)
  then show ?thesis by (simp add: unat_div)
qed

lemma timing_match_nat:
  assumes "unat expected * 20 < 2 ^ 32"
  shows "timing_match measured expected \<longleftrightarrow>
           (if expected = 0 then measured = 0
            else unat expected - unat expected * 20 div 100 \<le> unat measured \<and>
                 unat measured \<le> unat expected + unat expected * 20 div 100)"
proof (cases "expected = 0")
  case True
  then show ?thesis by (simp add: timing_match_def)
next
  case False
  let ?t = "expected * 20 div 100"
  have t: "unat ?t = unat expected * 20 div 100"
    by (rule tolerance_unat [OF assms])
  have le: "unat ?t \<le> unat expected" unfolding t by simp
  have sub: "unat (expected - ?t) = unat expected - unat ?t"
    using le by (simp add: unat_sub word_le_nat_alt)
  have "unat expected + unat ?t < 2 ^ 32"
    unfolding t using assms by simp
  then have add: "unat (expected + ?t) = unat expected + unat ?t"
    by (simp add: unat_word_ariths)
  show ?thesis
    using False by (simp add: timing_match_def Let_def word_le_nat_alt sub add t)
qed

text \<open>
  Every expected duration that \<open>irdb_decode_from_raw\<close> passes to \<open>timing_match\<close> is
  a field of a row of the parameter table; for those the 32-bit product
  \<open>expected * 20\<close> does not wrap.
\<close>

lemma decode_expected_in_range:
  assumes "p \<in> set protocol_params"
    and "e \<in> {header_mark p, header_space p, bit_mark p, bit_0_space p, bit_1_space p}"
  shows "unat e * 20 < 2 ^ 32"
  using assms
  by (auto simp: protocol_params_def nec1_params_def nec2_params_def rc5_params_def
        sony12_params_def sony15_params_def samsung32_params_def)

text \<open>
  Claim C3.  For an expected duration whose product with 20 fits 32 bits (all durations
  of the parameter table do), a measured duration matches exactly when it differs from
  the expected one by at most 20 percent of the expected one, rounded down; an expected
  duration of zero is matched by a measured duration of zero only.
\<close>

theorem timing_match_tolerance:
  assumes "unat expected * 20 < 2 ^ 32"
  shows "timing_match measured expected \<longleftrightarrow>
           (if expected = 0 then measured = 0
            else \<bar>uint measured - uint expected\<bar> \<le> uint expected * 20 div 100)"
proof -
  define e m where "e = unat expected" and "m = unat measured"
  have u: "uint expected = int e" "uint measured = int m"
    by (simp_all add: e_def m_def)
  have d: "int e * 20 div 100 = int (e * 20 div 100)"
    by (simp add: zdiv_int)
  have "(e - e * 20 div 100 \<le> m \<and> m \<le> e + e * 20 div 100) \<longleftrightarrow>
        \<bar>int m - int e\<bar> \<le> int (e * 20 div 100)"
    by arith
  then show ?thesis
    unfolding timing_match_nat [OF assms] u d e_def [symmetric] m_def [symmetric]
    by simp
qed

theorem timing_match_tolerance_witness:
  "timing_match 448 560 \<and> timing_match 672 560 \<and> \<not> timing_match 447 560 \<and>
   \<not> timing_match 673 560 \<and> timing_match 0 0 \<and> \<not> timing_match 1 0"
  using timing_match_tolerance [of 560 448] timing_match_tolerance [of 560 672]
    timing_match_tolerance [of 560 447] timing_match_tolerance [of 560 673]
    timing_match_tolerance [of 0 0] timing_match_tolerance [of 0 1]
  by simp

subsection \<open>RC5 frames\<close>

lemma get_params_rc5: "irdb_get_protocol_params IRDB_PROTOCOL_RC5 = Some rc5_params"
  by (simp add: irdb_get_protocol_params_def protocol_params_def nec1_params_def
        nec2_params_def rc5_params_def)

lemma assemble_code_rc5:
  "protocol e = IRDB_PROTOCOL_RC5 \<Longrightarrow> assemble_code rc5_params e = (rc5_code e, 11)"
  by (simp add: assemble_code_def rc5_params_def add_field_def field_mask_def Let_def
        rc5_code_def)

lemma rev_upt_11: "rev [0..<11] = [10,9,8,7,6,5,4,3,2,1,0::nat]"
  by code_simp
lemma rev_upt_5: "rev [0..<5] = [4,3,2,1,0::nat]"
  by code_simp
lemma rev_upt_6: "rev [0..<6] = [5,4,3,2,1,0::nat]"
  by code_simp

lemma rc5_code_bits:
  "map (bit (rc5_code e)) (rev [0..<11]) =
     msb_first 5 (device e) @ msb_first 6 (function_code e)"
  unfolding rev_upt_11 msb_first_def rev_upt_5 rev_upt_6 rc5_code_def
  by (simp add: bit_simps)

lemma rc5_bit_pairs:
  "concat (map (\<lambda>i. encode_bit IRDB_PROTOCOL_RC5 params (bit code i)) is) =
     manchester params (map (bit code) is)"
  by (simp add: manchester_def encode_bit_def comp_def)

lemma manchester_length: "length (manchester params bs) = 2 * length bs"
  by (induction bs) (simp_all add: manchester_def)

lemma encode_with_rc5:
  assumes "protocol e = IRDB_PROTOCOL_RC5"
    and "(if header_mark params > 0 then 2 else 0) + 2 * snd (assemble_code params e)
           + (if trailer_mark params > 0 then 1 else 0) \<le> unat max_length"
  shows "encode_with params e max_length =
           Inr ((if header_mark params > 0 then [header_mark params, header_space params] else [])
                @ manchester params
                    (map (bit (fst (assemble_code params e)))
                       (rev [0..<snd (assemble_code params e)]))
                @ (if trailer_mark params > 0 then [trailer_mark params] else []))"
proof -
  let ?out0 = "if header_mark params > 0 then [header_mark params, header_space params] else []"
  let ?ct = "assemble_code params e"
  have "length ?out0 + 2 * snd ?ct \<le> unat max_length"
    using assms(2) by (simp split: if_splits)
  then have bits:
    "encode_bits IRDB_PROTOCOL_RC5 params (fst ?ct) (snd ?ct) (unat max_length) ?out0 =
       Inr (?out0 @ manchester params (map (bit (fst ?ct)) (rev [0..<snd ?ct])))"
    by (simp only: encode_bits_ok rc5_bit_pairs)
  show ?thesis
    using assms
    by (simp add: encode_with_def Let_def bits manchester_length split: if_splits)
qed

text \<open>
  Claim C4.  For an RC5 entry the encoder writes each bit of the code word, most
  significant first, as two durations of the protocol parameters: a one as the space
  duration \<open>bit_0_space\<close> followed by the mark duration \<open>bit_mark\<close>, a zero as
  the mark duration followed by the space duration.  This holds for any parameters
  whose frame fits the buffer, and for the RC5 row of the table it gives the 22
  durations of device (5 bits) and function (6 bits).
\<close>

theorem rc5_encode_manchester:
  assumes "protocol e = IRDB_PROTOCOL_RC5"
  shows "((if header_mark params > 0 then 2 else 0) + 2 * snd (assemble_code params e)
            + (if trailer_mark params > 0 then 1 else 0) \<le> unat max_length \<longrightarrow>
          encode_with params e max_length =
            Inr ((if header_mark params > 0 then [header_mark params, header_space params]
                  else [])
                 @ manchester params
                     (map (bit (fst (assemble_code params e)))
                        (rev [0..<snd (assemble_code params e)]))
                 @ (if trailer_mark params > 0 then [trailer_mark params] else [])))
       \<and> (22 \<le> unat max_length \<longrightarrow>
          irdb_encode_to_raw e max_length =
            Inr (manchester rc5_params (msb_first 5 (device e) @ msb_first 6 (function_code e))))"
proof (intro conjI impI)
  assume "(if header_mark params > 0 then 2 else 0) + 2 * snd (assemble_code params e)
            + (if trailer_mark params > 0 then 1 else 0) \<le> unat max_length"
  then show "encode_with params e max_length =
            Inr ((if header_mark params > 0 then [header_mark params, header_space params]
                  else [])
                 @ manchester params
                     (map (bit (fst (assemble_code params e)))
                        (rev [0..<snd (assemble_code params e)]))
                 @ (if trailer_mark params > 0 then [trailer_mark params] else []))"
    by (rule encode_with_rc5 [OF assms])
next
  assume "22 \<le> unat max_length"
  then have "encode_with rc5_params e max_length =
      Inr (manchester rc5_params (map (bit (rc5_code e)) (rev [0..<11])))"
    using encode_with_rc5 [OF assms, of rc5_params max_length]
    by (simp add: assemble_code_rc5 [OF assms]) (simp add: rc5_params_def)
  then show "irdb_encode_to_raw e max_length =
            Inr (manchester rc5_params (msb_first 5 (device e) @ msb_first 6 (function_code e)))"
    using assms by (simp add: irdb_encode_to_raw_def get_params_rc5 rc5_code_bits)
qed

theorem rc5_encode_manchester_witness:
  "encode_with (rc5_params\<lparr>bit_mark := 800, bit_0_space := 900\<rparr>)
     \<lparr>function_name = ''Mute'', protocol = IRDB_PROTOCOL_RC5, device = 5, subdevice = 0,
       function_code = 3\<rparr> 100 =
     Inr [800, 900, 800, 900, 900, 800, 800, 900, 900, 800,
          800, 900, 800, 900, 800, 900, 800, 900, 900, 800, 900, 800]
   \<and> irdb_encode_to_raw
       \<lparr>function_name = ''Mute'', protocol = IRDB_PROTOCOL_RC5, device = 5, subdevice = 0,
         function_code = 3\<rparr> 100 =
     Inr [889, 889, 889, 889, 889, 889, 889, 889, 889, 889, 889,
          889, 889, 889, 889, 889, 889, 889, 889, 889, 889, 889]"
  using rc5_encode_manchester [of "\<lparr>function_name = ''Mute'', protocol = IRDB_PROTOCOL_RC5,
       device = 5, subdevice = 0, function_code = 3\<rparr>"
       "rc5_params\<lparr>bit_mark := 800, bit_0_space := 900\<rparr>" 100]
  by (simp add: msb_first_def rev_upt_5 rev_upt_6 rev_upt_11 manchester_def rc5_params_def
        assemble_code_def add_field_def field_mask_def)

subsection \<open>Round trip\<close>

text \<open>
  Claim C1.  The entry Power of protocol NEC1 with device 7, subdevice 7 and function 12
  is within the bit widths of NEC1; it is encoded to 67 durations, and decoding these
  against the database that holds just this entry finds no entry: the decoder takes the
  function from the last 8 bits of the frame, which are the complement of the function.
\<close>

theorem nec1_round_trip_fails:
  "irdb_encode_to_raw \<lparr>function_name = ''Power'', protocol = IRDB_PROTOCOL_NEC1, device = 7,
       subdevice = 7, function_code = 12\<rparr> 100 =
     Inr [9000, 4500,
           560, 560, 560, 560, 560, 560, 560, 560, 560, 560, 560, 1690, 560, 1690, 560, 1690,
           560, 560, 560, 560, 560, 560, 560, 560, 560, 560, 560, 1690, 560, 1690, 560, 1690,
           560, 560, 560, 560, 560, 560, 560, 560, 560, 1690, 560, 1690, 560, 560, 560, 560,
           560, 1690, 560, 1690, 560, 1690, 560, 1690, 560, 560, 560, 560, 560, 1690, 560, 1690,
           560]
   \<and> irdb_decode_from_raw
       [\<lparr>function_name = ''Power'', protocol = IRDB_PROTOCOL_NEC1, device = 7,
          subdevice = 7, function_code = 12\<rparr>]
       [9000, 4500,
           560, 560, 560, 560, 560, 560, 560, 560, 560, 560, 560, 1690, 560, 1690, 560, 1690,
           560, 560, 560, 560, 560, 560, 560, 560, 560, 560, 560, 1690, 560, 1690, 560, 1690,
           560, 560, 560, 560, 560, 560, 560, 560, 560, 1690, 560, 1690, 560, 560, 560, 560,
           560, 1690, 560, 1690, 560, 1690, 560, 1690, 560, 560, 560, 560, 560, 1690, 560, 1690,
           560] = Inl ENOENT"
  by code_simp

text \<open>
  The same for a Sony12 entry, whose pulse-width frame the pulse-distance decoder does not
  read, and for an RC5 entry with a non-zero field, whose bits all decode as zero.  An
  NEC2 entry is decoded.
\<close>

lemma sony12_round_trip_fails:
  "round_trip \<lparr>function_name = ''Power'', protocol = IRDB_PROTOCOL_SONY12, device = 1,
       subdevice = 0, function_code = 21\<rparr> 100 = Inl ENOENT"
  by code_simp

lemma rc5_round_trip_fails:
  "round_trip \<lparr>function_name = ''Power'', protocol = IRDB_PROTOCOL_RC5, device = 0,
       subdevice = 0, function_code = 12\<rparr> 100 = Inl ENOENT"
  by code_simp

lemma nec2_round_trip_ok:
  "round_trip \<lparr>function_name = ''Power'', protocol = IRDB_PROTOCOL_NEC2, device = 7,
       subdevice = 0, function_code = 12\<rparr> 100 = Inr \<lparr>function_name = ''Power'', protocol = IRDB_PROTOCOL_NEC2, device = 7,
       subdevice = 0, function_code = 12\<rparr>"
  by code_simp
section \<open>The round trip, protocol by protocol\<close>

text \<open>
  What decoding the encoder's frame against the entry itself returns, for every entry of
  each protocol of the table and a buffer that holds the frame: never the entry for NEC1,
  Sony12 and Sony15; the entry exactly when all fields are zero for RC5; the entry exactly
  when the fields fit their widths for NEC2 and Samsung32.
\<close>

subsection \<open>Decoding a pulse-distance frame\<close>

lemma shift_in_Nil [simp]: "shift_in d [] = d"
  by (simp add: shift_in_def)

lemma shift_in_Cons [simp]:
  "shift_in d (b # bs) = shift_in (push_bit 1 d OR (if b then 1 else 0)) bs"
  by (simp add: shift_in_def)

lemma pulse_distance_Cons:
  "pulse_distance p (b # bs) =
     bit_mark p # (if b then bit_1_space p else bit_0_space p) # pulse_distance p bs"
  by (simp add: pulse_distance_def)

lemma decode_bits_pulse_distance:
  assumes "proto \<noteq> IRDB_PROTOCOL_RC5"
    and "timing_match (bit_mark p) (bit_mark p)"
    and "timing_match (bit_0_space p) (bit_0_space p)"
    and "timing_match (bit_1_space p) (bit_1_space p)"
    and "\<not> timing_match (bit_1_space p) (bit_0_space p)"
  shows "k + length bs = tb \<Longrightarrow>
         decode_bits proto p (pre @ pulse_distance p bs @ post) (length pre) d k tb =
           (shift_in d bs, tb)"
proof (induction bs arbitrary: pre d k)
  case Nil
  then show ?case
    by (simp add: decode_bits.simps)
next
  case (Cons b bs)
  let ?s = "if b then bit_1_space p else bit_0_space p"
  let ?ts = "pre @ pulse_distance p (b # bs) @ post"
  have ts: "?ts = (pre @ [bit_mark p, ?s]) @ pulse_distance p bs @ post"
    by (simp add: pulse_distance_Cons)
  have t0: "?ts ! length pre = bit_mark p"
    by (simp add: pulse_distance_Cons nth_append)
  have t1: "?ts ! (length pre + 1) = ?s"
    by (simp add: pulse_distance_Cons nth_append)
  have db: "decode_bit proto p (bit_mark p) ?s = Some b"
    using assms by (simp add: decode_bit_def)
  have cond: "length pre + 1 < length ?ts \<and> k < tb"
    using Cons.prems by (simp add: pulse_distance_Cons)
  have "decode_bits proto p ?ts (length pre) d k tb =
          decode_bits proto p ?ts (length pre + 2)
            (push_bit 1 d OR (if b then 1 else 0)) (k + 1) tb"
    using cond by (subst decode_bits.simps) (simp only: t0 t1 db if_True option.case simp_thms)
  also have "\<dots> = decode_bits proto p ((pre @ [bit_mark p, ?s]) @ pulse_distance p bs @ post)
                     (length (pre @ [bit_mark p, ?s]))
                     (push_bit 1 d OR (if b then 1 else 0)) (k + 1) tb"
    by (simp only: ts) simp
  also have "\<dots> = (shift_in (push_bit 1 d OR (if b then 1 else 0)) bs, tb)"
    using Cons.prems by (intro Cons.IH) simp
  finally show ?case by simp
qed

lemma shift_in_bits:
  "shift_in d (map (bit c) (rev [0..<n])) = push_bit n d OR take_bit n c"
proof (induction n arbitrary: d)
  case 0
  then show ?case by simp
next
  case (Suc n)
  have "push_bit n (push_bit 1 d OR (if bit c n then 1 else 0)) OR take_bit n c =
        push_bit (Suc n) d OR take_bit (Suc n) c"
    by (rule bit_eqI) (auto simp: bit_simps less_Suc_eq)
  then show ?case
    by (simp add: Suc.IH)
qed

lemma decode_pulse_distance_frame:
  assumes "proto \<noteq> IRDB_PROTOCOL_RC5"
    and "timing_match (bit_mark p) (bit_mark p)"
    and "timing_match (bit_0_space p) (bit_0_space p)"
    and "timing_match (bit_1_space p) (bit_1_space p)"
    and "\<not> timing_match (bit_1_space p) (bit_0_space p)"
  shows "decode_bits proto p (pre @ pulse_distance p (map (bit c) (rev [0..<n])) @ post)
           (length pre) 0 0 n = (take_bit n c, n)"
  using decode_bits_pulse_distance [OF assms, of 0 "map (bit c) (rev [0..<n])" n pre post 0]
  by (simp add: shift_in_bits)

lemma mask_numerals: "(255 :: 32 word) = mask 8" "(65535 :: 32 word) = mask 16" "(31 :: 32 word) = mask 5" "(63 :: 32 word) = mask 6" "(127 :: 32 word) = mask 7"
  by (simp_all add: mask_eq_exp_minus_1)
lemma pulse_distance_length: "length (pulse_distance p bs) = 2 * length bs"
  by (induction bs) (simp_all add: pulse_distance_def)

lemma pulse_distance_pairs:
  assumes "proto \<noteq> IRDB_PROTOCOL_RC5"
    and "\<not> (IRDB_PROTOCOL_SONY12 \<le> proto \<and> proto \<le> IRDB_PROTOCOL_SONY20)"
  shows "concat (map (\<lambda>i. encode_bit proto p (bit code i)) is) =
           pulse_distance p (map (bit code) is)"
proof -
  have c: "(IRDB_PROTOCOL_SONY12 \<le> proto \<and> proto \<le> IRDB_PROTOCOL_SONY20) = False"
    using assms(2) by simp
  show ?thesis
    using assms(1) by (simp add: pulse_distance_def encode_bit_def comp_def c)
qed

lemma encode_with_pulse_distance:
  assumes "protocol e \<noteq> IRDB_PROTOCOL_RC5"
    and "\<not> (IRDB_PROTOCOL_SONY12 \<le> protocol e \<and> protocol e \<le> IRDB_PROTOCOL_SONY20)"
    and "header_mark p > 0" and "trailer_mark p > 0"
    and "assemble_code p e = (code, n)"
    and "2 * n + 3 \<le> unat max_length"
  shows "encode_with p e max_length =
           Inr ([header_mark p, header_space p]
                @ pulse_distance p (map (bit code) (rev [0..<n]))
                @ [trailer_mark p])"
proof -
  let ?out0 = "[header_mark p, header_space p]"
  have "length ?out0 + 2 * n \<le> unat max_length"
    using assms(6) by simp
  then have bits:
    "encode_bits (protocol e) p code n (unat max_length) ?out0 =
       Inr (?out0 @ pulse_distance p (map (bit code) (rev [0..<n])))"
    by (simp only: encode_bits_ok pulse_distance_pairs [OF assms(1,2)])
  show ?thesis
    using assms(3,4,6)
    by (simp add: encode_with_def assms(5) bits Let_def pulse_distance_length)
qed

lemma timing_match_self:
  assumes "unat t * 20 < 2 ^ 32"
  shows "timing_match t t"
  using assms by (simp add: timing_match_nat)

lemma nec_timings:
  "timing_match 9000 9000" "timing_match 4500 4500" "timing_match 560 560"
  "timing_match 1690 1690" "\<not> timing_match 1690 560"
  by (simp_all add: timing_match_nat)

lemma entry_matches_frame:
  fixes code :: "64 word"
  assumes params: "irdb_get_protocol_params (protocol e) = Some p"
    and proto: "protocol e \<noteq> IRDB_PROTOCOL_RC5"
    and hdr: "header_mark p > 0"
    and tm: "timing_match (header_mark p) (header_mark p)"
      "timing_match (header_space p) (header_space p)"
      "timing_match (bit_mark p) (bit_mark p)"
      "timing_match (bit_0_space p) (bit_0_space p)"
      "timing_match (bit_1_space p) (bit_1_space p)"
      "\<not> timing_match (bit_1_space p) (bit_0_space p)"
    and n: "n = unat (device_bits p) + unat (subdevice_bits p) + unat (function_bits p)
                + (if protocol e = IRDB_PROTOCOL_NEC1 then 8 else 0)"
  shows "entry_matches e ([header_mark p, header_space p]
                          @ pulse_distance p (map (bit code) (rev [0..<n])) @ post) \<longleftrightarrow>
         (let decoded0 = take_bit n code;
              fn = (ucast (decoded0 AND scast (field_mask (function_bits p))) :: 16 word);
              decoded1 = drop_bit (unat (function_bits p)) decoded0;
              decoded2 = (if protocol e = IRDB_PROTOCOL_NEC1
                          then drop_bit 8 decoded1 else decoded1);
              sub = (if subdevice_bits p > 0
                     then (ucast (decoded2 AND scast (field_mask (subdevice_bits p)))
                             :: 16 word)
                     else 0);
              decoded3 = (if subdevice_bits p > 0
                          then drop_bit (unat (subdevice_bits p)) decoded2
                          else decoded2);
              dev = (ucast (decoded3 AND scast (field_mask (device_bits p))) :: 16 word)
          in dev = device e \<and> sub = subdevice e \<and> fn = function_code e)"
proof -
  define fr where
    "fr = [header_mark p, header_space p] @ pulse_distance p (map (bit code) (rev [0..<n])) @ post"
  have len: "\<not> 2 > length fr"
    by (simp add: fr_def)
  have h0: "fr ! 0 = header_mark p" and h1: "fr ! 1 = header_space p"
    by (simp_all add: fr_def)
  have "decode_bits (protocol e) p fr (length [header_mark p, header_space p]) 0 0 n =
          (take_bit n code, n)"
    unfolding fr_def
    by (rule decode_pulse_distance_frame [OF proto tm(3,4,5,6)])
  moreover have "length [header_mark p, header_space p] = 2"
    by simp
  ultimately have dec: "decode_bits (protocol e) p fr 2 0 0 n = (take_bit n code, n)"
    by (simp only:)
  show ?thesis
    unfolding fr_def [symmetric] entry_matches_def params option.case n [symmetric]
    using hdr len
    by (simp only: h0 h1 tm dec Let_def fst_conv snd_conv simp_thms if_True if_False)
qed

subsection \<open>Parameters and code words\<close>

lemma get_params_nec2: "irdb_get_protocol_params IRDB_PROTOCOL_NEC2 = Some nec2_params"
  by (simp add: irdb_get_protocol_params_def protocol_params_def nec1_params_def
        nec2_params_def)

lemma get_params_samsung32:
  "irdb_get_protocol_params IRDB_PROTOCOL_SAMSUNG32 = Some samsung32_params"
  by (simp add: irdb_get_protocol_params_def protocol_params_def nec1_params_def
        nec2_params_def rc5_params_def sony12_params_def sony15_params_def
        samsung32_params_def)

lemma assemble_code_nec2:
  "protocol e = IRDB_PROTOCOL_NEC2 \<Longrightarrow> assemble_code nec2_params e = (nec2_code e, 24)"
  by (simp add: assemble_code_def nec2_params_def add_field_def field_mask_def Let_def
        nec2_code_def)

lemma assemble_code_samsung32:
  "protocol e = IRDB_PROTOCOL_SAMSUNG32 \<Longrightarrow>
   assemble_code samsung32_params e = (samsung32_code e, 24)"
  by (simp add: assemble_code_def samsung32_params_def add_field_def field_mask_def Let_def
        samsung32_code_def)

lemma not_sony:
  "\<not> (IRDB_PROTOCOL_SONY12 \<le> IRDB_PROTOCOL_NEC1 \<and> IRDB_PROTOCOL_NEC1 \<le> IRDB_PROTOCOL_SONY20)"
  "\<not> (IRDB_PROTOCOL_SONY12 \<le> IRDB_PROTOCOL_NEC2 \<and> IRDB_PROTOCOL_NEC2 \<le> IRDB_PROTOCOL_SONY20)"
  "\<not> (IRDB_PROTOCOL_SONY12 \<le> IRDB_PROTOCOL_SAMSUNG32 \<and>
      IRDB_PROTOCOL_SAMSUNG32 \<le> IRDB_PROTOCOL_SONY20)"
  by (simp_all add: word_le_nat_alt)

lemma decode_single:
  assumes "4 \<le> length ts"
  shows "irdb_decode_from_raw [e] ts = (if entry_matches e ts then Inr e else Inl ENOENT)"
  using assms by (simp add: irdb_decode_from_raw_def)

lemma field_lt_256: "take_bit 8 (f :: 16 word) = f \<longleftrightarrow> f < 256"
  using mask_eq_iff_w2p [of 8 f] by (simp add: take_bit_eq_mask word_size)

subsection \<open>NEC1: the function is read from its complement\<close>

lemma nec1_decoded_function:
  "(ucast (take_bit 32 (nec1_code e) AND scast (255 :: 32 word)) :: 16 word)
     \<noteq> function_code e"
proof
  assume eq: "(ucast (take_bit 32 (nec1_code e) AND scast (255 :: 32 word)) :: 16 word)
                = function_code e"
  have "bit (ucast (take_bit 32 (nec1_code e) AND scast (255 :: 32 word)) :: 16 word) 0
          = (\<not> bit (function_code e) 0)"
    unfolding nec1_code_def mask_numerals by (simp add: bit_simps)
  then show False
    unfolding eq by simp
qed

lemma nec1_round_trip_never:
  assumes "protocol e = IRDB_PROTOCOL_NEC1" and "67 \<le> unat max_length"
  shows "round_trip e max_length = Inl ENOENT"
proof -
  let ?fr = "[header_mark nec1_params, header_space nec1_params]
             @ pulse_distance nec1_params (map (bit (nec1_code e)) (rev [0..<32]))
             @ [trailer_mark nec1_params]"
  have enc: "irdb_encode_to_raw e max_length = Inr ?fr"
    unfolding irdb_encode_to_raw_def assms(1) get_params_nec1 option.case
    using assms
    by (intro encode_with_pulse_distance assemble_code_nec1)
       (simp_all add: nec1_params_def word_le_nat_alt)
  have "entry_matches e ?fr \<longleftrightarrow>
          (let decoded0 = take_bit 32 (nec1_code e);
              fn = (ucast (decoded0 AND scast (field_mask (function_bits nec1_params))) :: 16 word);
              decoded1 = drop_bit (unat (function_bits nec1_params)) decoded0;
              decoded2 = (if protocol e = IRDB_PROTOCOL_NEC1
                          then drop_bit 8 decoded1 else decoded1);
              sub = (if subdevice_bits nec1_params > 0
                     then (ucast (decoded2 AND scast (field_mask (subdevice_bits nec1_params)))
                             :: 16 word)
                     else 0);
              decoded3 = (if subdevice_bits nec1_params > 0
                          then drop_bit (unat (subdevice_bits nec1_params)) decoded2
                          else decoded2);
              dev = (ucast (decoded3 AND scast (field_mask (device_bits nec1_params))) :: 16 word)
          in dev = device e \<and> sub = subdevice e \<and> fn = function_code e)"
    using assms(1)
    by (intro entry_matches_frame)
       (simp_all add: get_params_nec1 nec1_params_def nec_timings)
  then have "\<not> entry_matches e ?fr"
    using nec1_decoded_function [of e]
    by (simp add: Let_def nec1_params_def field_mask_def)
  moreover have "4 \<le> length ?fr"
    by (simp add: pulse_distance_length)
  ultimately show ?thesis
    by (simp add: round_trip_def enc decode_single del: append.simps)
qed


subsection \<open>NEC2\<close>

lemma nec2_decoded_function:
  "(ucast (take_bit 24 (nec2_code e) AND scast (255 :: 32 word)) :: 16 word)
     = take_bit 8 (function_code e)"
  unfolding nec2_code_def mask_numerals
  by (rule bit_eqI) (auto simp: bit_simps)

lemma nec2_decoded_device:
  "(ucast (drop_bit 8 (take_bit 24 (nec2_code e)) AND scast (65535 :: 32 word)) :: 16 word)
     = device e"
  unfolding nec2_code_def mask_numerals
  by (rule bit_eqI) (auto simp: bit_simps)

lemma nec2_round_trip:
  assumes "protocol e = IRDB_PROTOCOL_NEC2" and "51 \<le> unat max_length"
  shows "round_trip e max_length =
           (if subdevice e = 0 \<and> function_code e < 256 then Inr e else Inl ENOENT)"
proof -
  let ?fr = "[header_mark nec2_params, header_space nec2_params]
             @ pulse_distance nec2_params (map (bit (nec2_code e)) (rev [0..<24]))
             @ [trailer_mark nec2_params]"
  have enc: "irdb_encode_to_raw e max_length = Inr ?fr"
    unfolding irdb_encode_to_raw_def assms(1) get_params_nec2 option.case
    using assms
    by (intro encode_with_pulse_distance assemble_code_nec2)
       (simp_all add: nec2_params_def word_le_nat_alt)
  have "entry_matches e ?fr \<longleftrightarrow>
          (let decoded0 = take_bit 24 (nec2_code e);
              fn = (ucast (decoded0 AND scast (field_mask (function_bits nec2_params))) :: 16 word);
              decoded1 = drop_bit (unat (function_bits nec2_params)) decoded0;
              decoded2 = (if protocol e = IRDB_PROTOCOL_NEC1
                          then drop_bit 8 decoded1 else decoded1);
              sub = (if subdevice_bits nec2_params > 0
                     then (ucast (decoded2 AND scast (field_mask (subdevice_bits nec2_params)))
                             :: 16 word)
                     else 0);
              decoded3 = (if subdevice_bits nec2_params > 0
                          then drop_bit (unat (subdevice_bits nec2_params)) decoded2
                          else decoded2);
              dev = (ucast (decoded3 AND scast (field_mask (device_bits nec2_params))) :: 16 word)
          in dev = device e \<and> sub = subdevice e \<and> fn = function_code e)"
    using assms(1)
    by (intro entry_matches_frame)
       (simp_all add: get_params_nec2 nec2_params_def nec_timings)
  then have m: "entry_matches e ?fr \<longleftrightarrow> subdevice e = 0 \<and> function_code e < 256"
    using assms(1) nec2_decoded_function [of e] nec2_decoded_device [of e]
    by (auto simp: Let_def nec2_params_def field_mask_def field_lt_256)
  have "4 \<le> length ?fr"
    by (simp add: pulse_distance_length)
  then show ?thesis
    by (simp add: round_trip_def enc decode_single m del: append.simps)
qed

subsection \<open>Samsung32\<close>

lemma samsung32_decoded_fields:
  "(ucast (take_bit 24 (samsung32_code e) AND scast (255 :: 32 word)) :: 16 word)
     = take_bit 8 (function_code e)"
  "(ucast (drop_bit 8 (take_bit 24 (samsung32_code e)) AND scast (255 :: 32 word)) :: 16 word)
     = take_bit 8 (subdevice e)"
  "(ucast (drop_bit 8 (drop_bit 8 (take_bit 24 (samsung32_code e))) AND scast (255 :: 32 word))
      :: 16 word) = take_bit 8 (device e)"
  unfolding samsung32_code_def mask_numerals
  by (rule bit_eqI; auto simp: bit_simps)+

lemma samsung32_round_trip:
  assumes "protocol e = IRDB_PROTOCOL_SAMSUNG32" and "51 \<le> unat max_length"
  shows "round_trip e max_length =
           (if device e < 256 \<and> subdevice e < 256 \<and> function_code e < 256
            then Inr e else Inl ENOENT)"
proof -
  let ?fr = "[header_mark samsung32_params, header_space samsung32_params]
             @ pulse_distance samsung32_params (map (bit (samsung32_code e)) (rev [0..<24]))
             @ [trailer_mark samsung32_params]"
  have enc: "irdb_encode_to_raw e max_length = Inr ?fr"
    unfolding irdb_encode_to_raw_def assms(1) get_params_samsung32 option.case
    using assms
    by (intro encode_with_pulse_distance assemble_code_samsung32)
       (simp_all add: samsung32_params_def word_le_nat_alt)
  have "entry_matches e ?fr \<longleftrightarrow>
          (let decoded0 = take_bit 24 (samsung32_code e);
              fn = (ucast (decoded0 AND scast (field_mask (function_bits samsung32_params)))
                      :: 16 word);
              decoded1 = drop_bit (unat (function_bits samsung32_params)) decoded0;
              decoded2 = (if protocol e = IRDB_PROTOCOL_NEC1
                          then drop_bit 8 decoded1 else decoded1);
              sub = (if subdevice_bits samsung32_params > 0
                     then (ucast (decoded2 AND
                                  scast (field_mask (subdevice_bits samsung32_params)))
                             :: 16 word)
                     else 0);
              decoded3 = (if subdevice_bits samsung32_params > 0
                          then drop_bit (unat (subdevice_bits samsung32_params)) decoded2
                          else decoded2);
              dev = (ucast (decoded3 AND scast (field_mask (device_bits samsung32_params)))
                       :: 16 word)
          in dev = device e \<and> sub = subdevice e \<and> fn = function_code e)"
    using assms(1)
    by (intro entry_matches_frame)
       (simp_all add: get_params_samsung32 samsung32_params_def nec_timings)
  then have m: "entry_matches e ?fr \<longleftrightarrow>
                  device e < 256 \<and> subdevice e < 256 \<and> function_code e < 256"
    using assms(1) samsung32_decoded_fields [of e]
    by (auto simp: Let_def samsung32_params_def field_mask_def field_lt_256)
  have "4 \<le> length ?fr"
    by (simp add: pulse_distance_length)
  then show ?thesis
    by (simp add: round_trip_def enc decode_single m del: append.simps)
qed

subsection \<open>Decoders that read only zeros\<close>

lemma decode_bits_zero:
  assumes "\<And>t0 t1. decode_bit proto p t0 t1 \<noteq> Some True"
  shows "fst (decode_bits proto p ts idx 0 k n) = 0"
proof (induction "n - k" arbitrary: idx k)
  case 0
  then show ?case
    by (subst decode_bits.simps) simp
next
  case (Suc m)
  show ?case
  proof (cases "idx + 1 < length ts \<and> k < n")
    case False
    then show ?thesis
      by (subst decode_bits.simps) auto
  next
    case True
    show ?thesis
    proof (cases "decode_bit proto p (ts ! idx) (ts ! (idx + 1))")
      case None
      then show ?thesis
        using True by (subst decode_bits.simps) simp
    next
      case (Some b)
      then have b: "b = False"
        using assms [of "ts ! idx" "ts ! (idx + 1)"] by auto
      have "m = n - (k + 1)"
        using Suc.hyps(2) by simp
      then have "fst (decode_bits proto p ts (idx + 2) 0 (k + 1) n) = 0"
        by (rule Suc.hyps(1))
      then show ?thesis
        using True Some b by (subst decode_bits.simps) simp
    qed
  qed
qed

lemma decode_bit_never_one:
  assumes "if proto = IRDB_PROTOCOL_RC5 then bit_mark p = bit_0_space p
           else bit_0_space p = bit_1_space p"
  shows "decode_bit proto p t0 t1 \<noteq> Some True"
  using assms by (auto simp: decode_bit_def split: if_splits)

lemma entry_matches_zero_only:
  assumes params: "irdb_get_protocol_params (protocol e) = Some p"
    and same: "if protocol e = IRDB_PROTOCOL_RC5 then bit_mark p = bit_0_space p
               else bit_0_space p = bit_1_space p"
    and m: "entry_matches e ts"
  shows "device e = 0 \<and> subdevice e = 0 \<and> function_code e = 0"
proof -
  define n where "n = unat (device_bits p) + unat (subdevice_bits p) + unat (function_bits p)
                + (if protocol e = IRDB_PROTOCOL_NEC1 then 8 else 0)"
  define idx :: nat where "idx = (if header_mark p > 0 then 2 else 0)"
  have z: "fst (decode_bits (protocol e) p ts idx 0 0 n) = 0"
    by (rule decode_bits_zero [OF decode_bit_never_one [OF same]])
  show ?thesis
    using m unfolding entry_matches_def params option.case
    by (simp add: Let_def n_def [symmetric] idx_def [symmetric] z split: if_splits)
qed

lemma encode_with_frame:
  assumes "assemble_code p e = (code, n)"
    and "(if header_mark p > 0 then 2 else 0) + 2 * n + (if trailer_mark p > 0 then 1 else 0)
           \<le> unat max_length"
  shows "encode_with p e max_length =
           Inr ((if header_mark p > 0 then [header_mark p, header_space p] else [])
                @ concat (map (\<lambda>i. encode_bit (protocol e) p (bit code i)) (rev [0..<n]))
                @ (if trailer_mark p > 0 then [trailer_mark p] else []))"
proof -
  let ?out0 = "if header_mark p > 0 then [header_mark p, header_space p] else []"
  have "length ?out0 + 2 * n \<le> unat max_length"
    using assms(2) by (simp split: if_splits)
  then have bits:
    "encode_bits (protocol e) p code n (unat max_length) ?out0 =
       Inr (?out0 @ concat (map (\<lambda>i. encode_bit (protocol e) p (bit code i)) (rev [0..<n])))"
    by (rule encode_bits_ok)
  have len: "length (concat (map (\<lambda>i. encode_bit (protocol e) p (bit code i)) (rev [0..<n])))
               = 2 * n"
    by (induction n) (simp_all add: encode_bit_length)
  show ?thesis
    using assms(2)
    by (simp add: encode_with_def assms(1) Let_def bits len split: if_splits)
qed

lemma get_params_sony12: "irdb_get_protocol_params IRDB_PROTOCOL_SONY12 = Some sony12_params"
  by (simp add: irdb_get_protocol_params_def protocol_params_def nec1_params_def
        nec2_params_def rc5_params_def sony12_params_def)

lemma get_params_sony15: "irdb_get_protocol_params IRDB_PROTOCOL_SONY15 = Some sony15_params"
  by (simp add: irdb_get_protocol_params_def protocol_params_def nec1_params_def
        nec2_params_def rc5_params_def sony12_params_def sony15_params_def)

lemma assemble_code_zero:
  assumes "device e = 0" and "subdevice e = 0" and "function_code e = 0"
    and "protocol e \<noteq> IRDB_PROTOCOL_NEC1"
  shows "assemble_code p e =
           (0, (if device_bits p > 0 then unat (device_bits p) else 0)
               + (if subdevice_bits p > 0 then unat (subdevice_bits p) else 0)
               + unat (function_bits p))"
  using assms by (simp add: assemble_code_def add_field_def Let_def)

lemma rc5_zero_decode:
  "decode_bits IRDB_PROTOCOL_RC5 rc5_params rc5_zero_frame 0 0 0 11 = (0, 11)"
  by code_simp

lemma sony12_zero_decode:
  "snd (decode_bits IRDB_PROTOCOL_SONY12 sony12_params sony12_zero_frame 2 0 0 12) = 0"
  by code_simp

lemma sony15_zero_decode:
  "snd (decode_bits IRDB_PROTOCOL_SONY15 sony15_params sony15_zero_frame 2 0 0 15) = 0"
  by code_simp

lemma zero_frame_heads:
  "timing_match (sony12_zero_frame ! 0) 2400" "timing_match (sony12_zero_frame ! 1) 600"
  "timing_match (sony15_zero_frame ! 0) 2400" "timing_match (sony15_zero_frame ! 1) 600"
  "length sony12_zero_frame = 26" "length sony15_zero_frame = 32" "length rc5_zero_frame = 22"
  by code_simp+

subsection \<open>RC5, Sony12 and Sony15\<close>

lemma rc5_fields:
  "header_mark rc5_params = 0" "trailer_mark rc5_params = 0" "device_bits rc5_params = 5"
  "subdevice_bits rc5_params = 0" "function_bits rc5_params = 6"
  by (simp_all add: rc5_params_def)

lemma rc5_round_trip:
  assumes "protocol e = IRDB_PROTOCOL_RC5" and "22 \<le> unat max_length"
  shows "round_trip e max_length =
           (if device e = 0 \<and> subdevice e = 0 \<and> function_code e = 0
            then Inr e else Inl ENOENT)"
proof -
  obtain code where ac: "assemble_code rc5_params e = (code, 11)"
    using assms(1)
    by (simp add: assemble_code_def rc5_params_def add_field_def Let_def)
  define fr where
    "fr = concat (map (\<lambda>i. encode_bit IRDB_PROTOCOL_RC5 rc5_params (bit code i)) (rev [0..<11]))"
  have "encode_with rc5_params e max_length =
          Inr ((if header_mark rc5_params > 0
                then [header_mark rc5_params, header_space rc5_params] else [])
               @ concat (map (\<lambda>i. encode_bit (protocol e) rc5_params (bit code i))
                           (rev [0..<11]))
               @ (if trailer_mark rc5_params > 0 then [trailer_mark rc5_params] else []))"
    using assms(2) by (intro encode_with_frame [OF ac]) (simp add: rc5_params_def)
  then have enc: "irdb_encode_to_raw e max_length = Inr fr"
    using assms(1)
    by (simp add: irdb_encode_to_raw_def get_params_rc5 fr_def) (simp add: rc5_params_def)
  have len: "length fr = 22"
    unfolding fr_def rev_upt_11 by (simp add: encode_bit_length)
  then have dec: "irdb_decode_from_raw [e] fr = (if entry_matches e fr then Inr e else Inl ENOENT)"
    by (intro decode_single) simp
  show ?thesis
  proof (cases "device e = 0 \<and> subdevice e = 0 \<and> function_code e = 0")
    case False
    have "\<not> entry_matches e fr"
    proof
      assume "entry_matches e fr"
      then have "device e = 0 \<and> subdevice e = 0 \<and> function_code e = 0"
        using assms(1)
        by (intro entry_matches_zero_only [where p = rc5_params and ts = fr])
           (simp_all add: get_params_rc5 rc5_params_def)
      then show False using False by simp
    qed
    then show ?thesis
      using False by (simp add: round_trip_def enc dec)
  next
    case True
    then have "assemble_code rc5_params e = (0, 11)"
      using assms(1) assemble_code_zero [of e rc5_params]
      by (simp add: rc5_params_def)
    then have "code = 0" using ac by simp
    then have fr0: "fr = rc5_zero_frame"
      by (simp add: fr_def rc5_zero_frame_def)
    have "entry_matches e rc5_zero_frame"
      using assms(1) True
      by (simp add: entry_matches_def get_params_rc5 rc5_zero_decode Let_def rc5_fields)
    then have "entry_matches e fr"
      by (simp only: fr0)
    then show ?thesis
      using True by (simp add: round_trip_def enc dec)
  qed
qed


lemma sony12_fields:
  "header_mark sony12_params = 2400" "header_space sony12_params = 600"
  "trailer_mark sony12_params = 0" "device_bits sony12_params = 5"
  "subdevice_bits sony12_params = 0" "function_bits sony12_params = 7"
  "bit_0_space sony12_params = 600" "bit_1_space sony12_params = 600"
  by (simp_all add: sony12_params_def)

lemma sony15_fields:
  "header_mark sony15_params = 2400" "header_space sony15_params = 600"
  "trailer_mark sony15_params = 0" "device_bits sony15_params = 8"
  "subdevice_bits sony15_params = 0" "function_bits sony15_params = 7"
  "bit_0_space sony15_params = 600" "bit_1_space sony15_params = 600"
  by (simp_all add: sony15_params_def)

lemma sony12_round_trip_never:
  assumes "protocol e = IRDB_PROTOCOL_SONY12" and "26 \<le> unat max_length"
  shows "round_trip e max_length = Inl ENOENT"
proof -
  obtain code where ac: "assemble_code sony12_params e = (code, 12)"
    using assms(1)
    by (simp add: assemble_code_def sony12_params_def add_field_def Let_def)
  define fr where
    "fr = [2400, 600] @ concat (map (\<lambda>i. encode_bit IRDB_PROTOCOL_SONY12 sony12_params
                                            (bit code i)) (rev [0..<12]))"
  have "encode_with sony12_params e max_length =
          Inr ((if header_mark sony12_params > 0
                then [header_mark sony12_params, header_space sony12_params] else [])
               @ concat (map (\<lambda>i. encode_bit (protocol e) sony12_params (bit code i))
                           (rev [0..<12]))
               @ (if trailer_mark sony12_params > 0 then [trailer_mark sony12_params] else []))"
    using assms(2) by (intro encode_with_frame [OF ac]) (simp add: sony12_fields)
  then have enc: "irdb_encode_to_raw e max_length = Inr fr"
    using assms(1)
    by (simp add: irdb_encode_to_raw_def get_params_sony12 fr_def sony12_fields)
  have "length (concat (map (\<lambda>i. encode_bit IRDB_PROTOCOL_SONY12 sony12_params
                                            (bit code i)) (rev [0..<12]))) = 24"
    by (simp add: length_concat comp_def encode_bit_length sum_list_triv)
  then have len: "length fr = 26"
    by (simp add: fr_def)
  then have dec: "irdb_decode_from_raw [e] fr = (if entry_matches e fr then Inr e else Inl ENOENT)"
    by (intro decode_single) simp
  have "\<not> entry_matches e fr"
  proof
    assume m: "entry_matches e fr"
    then have z: "device e = 0 \<and> subdevice e = 0 \<and> function_code e = 0"
      using assms(1)
      by (intro entry_matches_zero_only [where p = sony12_params and ts = fr])
         (simp_all add: get_params_sony12 sony12_fields)
    then have "assemble_code sony12_params e = (0, 12)"
      using assms(1) assemble_code_zero [of e sony12_params]
      by (simp add: sony12_fields)
    then have "code = 0" using ac by simp
    then have fr0: "fr = sony12_zero_frame"
      by (simp add: fr_def sony12_zero_frame_def)
    have "\<not> entry_matches e sony12_zero_frame"
      using assms(1)
      by (simp add: entry_matches_def get_params_sony12 sony12_zero_decode Let_def
            sony12_fields zero_frame_heads)
    then show False
      using m by (simp only: fr0)
  qed
  then show ?thesis
    by (simp add: round_trip_def enc dec)
qed

lemma sony15_round_trip_never:
  assumes "protocol e = IRDB_PROTOCOL_SONY15" and "32 \<le> unat max_length"
  shows "round_trip e max_length = Inl ENOENT"
proof -
  obtain code where ac: "assemble_code sony15_params e = (code, 15)"
    using assms(1)
    by (simp add: assemble_code_def sony15_params_def add_field_def Let_def)
  define fr where
    "fr = [2400, 600] @ concat (map (\<lambda>i. encode_bit IRDB_PROTOCOL_SONY15 sony15_params
                                            (bit code i)) (rev [0..<15]))"
  have "encode_with sony15_params e max_length =
          Inr ((if header_mark sony15_params > 0
                then [header_mark sony15_params, header_space sony15_params] else [])
               @ concat (map (\<lambda>i. encode_bit (protocol e) sony15_params (bit code i))
                           (rev [0..<15]))
               @ (if trailer_mark sony15_params > 0 then [trailer_mark sony15_params] else []))"
    using assms(2) by (intro encode_with_frame [OF ac]) (simp add: sony15_fields)
  then have enc: "irdb_encode_to_raw e max_length = Inr fr"
    using assms(1)
    by (simp add: irdb_encode_to_raw_def get_params_sony15 fr_def sony15_fields)
  have "length (concat (map (\<lambda>i. encode_bit IRDB_PROTOCOL_SONY15 sony15_params
                                            (bit code i)) (rev [0..<15]))) = 30"
    by (simp add: length_concat comp_def encode_bit_length sum_list_triv)
  then have len: "length fr = 32"
    by (simp add: fr_def)
  then have dec: "irdb_decode_from_raw [e] fr = (if entry_matches e fr then Inr e else Inl ENOENT)"
    by (intro decode_single) simp
  have "\<not> entry_matches e fr"
  proof
    assume m: "entry_matches e fr"
    then have z: "device e = 0 \<and> subdevice e = 0 \<and> function_code e = 0"
      using assms(1)
      by (intro entry_matches_zero_only [where p = sony15_params and ts = fr])
         (simp_all add: get_params_sony15 sony15_fields)
    then have "assemble_code sony15_params e = (0, 15)"
      using assms(1) assemble_code_zero [of e sony15_params]
      by (simp add: sony15_fields)
    then have "code = 0" using ac by simp
    then have fr0: "fr = sony15_zero_frame"
      by (simp add: fr_def sony15_zero_frame_def)
    have "\<not> entry_matches e sony15_zero_frame"
      using assms(1)
      by (simp add: entry_matches_def get_params_sony15 sony15_zero_decode Let_def
            sony15_fields zero_frame_heads)
    then show False
      using m by (simp only: fr0)
  qed
  then show ?thesis
    by (simp add: round_trip_def enc dec)
qed

section \<open>Properties of the signal analysis\<close>

subsection \<open>The estimate of the carrier frequency\<close>

lemma analyze_step_min: "acc_min (analyze_step i d a) = min (acc_min a) d"
  by (auto simp: analyze_step_def Let_def min_def)

lemma analyze_loop_min:
  assumes "timings s = Some b" and "n \<le> length b"
  shows "i \<le> n \<Longrightarrow>
         \<exists>a'. analyze_loop s i n a = Some a' \<and>
              acc_min a' = foldl min (acc_min a) (drop i (take n b))"
proof (induction "n - i" arbitrary: i a)
  case 0
  then show ?case
    by (subst analyze_loop.simps) simp
next
  case (Suc k)
  then have lt: "i < n" by simp
  have rd: "read_timing s i = Some (b ! i)"
    using lt assms by (simp add: read_timing_def)
  have k: "k = n - (i + 1)" using Suc.hyps(2) by simp
  have le: "i + 1 \<le> n" using lt by simp
  obtain a' where a': "analyze_loop s (i + 1) n (analyze_step i (b ! i) a) = Some a'"
      "acc_min a' = foldl min (acc_min (analyze_step i (b ! i) a)) (drop (i + 1) (take n b))"
    using Suc.hyps(1) [OF k le] by blast
  have step: "analyze_loop s i n a = analyze_loop s (i + 1) n (analyze_step i (b ! i) a)"
    using lt by (subst analyze_loop.simps) (simp add: rd)
  have "drop i (take n b) = b ! i # drop (i + 1) (take n b)"
    using lt assms(2) by (simp add: Cons_nth_drop_Suc [symmetric])
  then show ?case
    using a' by (simp add: step analyze_step_min)
qed

lemma estimate_no_wrap:
  assumes "0 < m" and "unat (m :: 32 word) < 2 ^ 31"
  shows "m * 2 \<noteq> 0" and "unat (1000000 div (m * 2)) = 1000000 div (2 * unat m)"
proof -
  have u: "unat (m * 2) = 2 * unat m"
    using assms(2) by (simp add: unat_word_ariths)
  have "0 < unat m" using assms(1) by (simp add: word_less_nat_alt)
  then show "m * 2 \<noteq> 0"
    using u by (metis mult_eq_0_iff neq0_conv unat_0 zero_neq_numeral)
  show "unat (1000000 div (m * 2)) = 1000000 div (2 * unat m)"
    by (simp only: unat_div u) simp
qed

text \<open>
  For a valid signal whose buffer holds its durations and whose shortest duration \<open>m\<close>
  is positive and below \<open>2 ^ 31\<close>, the analysis succeeds, reports \<open>m\<close> and the
  estimate \<open>1000000 div (2 * m)\<close> passed through the if-else chain.
\<close>

lemma analyze_estimate:
  assumes "valid s" and "timings s = Some b" and "unat (timing_count s) \<le> length b"
    and "m = min_duration (take (unat (timing_count s)) b)"
    and "0 < m" and "unat m < 2 ^ 31"
  shows "\<exists>an. ir_learning_analyze s = Inr an \<and> min_pulse an = m \<and>
              estimated_freq an = snap_freq (1000000 div (m * 2))"
proof -
  let ?a0 = "\<lparr>acc_min = 0xFFFFFFFF, acc_max = 0, mark_sum = 0, space_sum = 0,
                mark_count = 0, space_count = 0\<rparr>"
  obtain a where a: "analyze_loop s 0 (unat (timing_count s)) ?a0 = Some a"
      "acc_min a = foldl min (acc_min ?a0) (drop 0 (take (unat (timing_count s)) b))"
    using analyze_loop_min [OF assms(2,3), of 0 ?a0] by blast
  have am: "acc_min a = m"
    using a(2) by (simp add: assms(4) min_duration_def)
  have nz: "m * 2 \<noteq> 0"
    by (rule estimate_no_wrap(1) [OF assms(5,6)])
  show ?thesis
    using assms(1,5) nz
    by (simp add: ir_learning_analyze_def a(1) am Let_def)
qed

text \<open>A shortest pulse of 13 microseconds gives 38461, reported as 38000.\<close>

lemma analyze_13_microseconds:
  assumes "valid s" and "timings s = Some b" and "unat (timing_count s) \<le> length b"
    and "min_duration (take (unat (timing_count s)) b) = 13"
  shows "\<exists>an. ir_learning_analyze s = Inr an \<and> min_pulse an = 13 \<and>
              estimated_freq an = 38000"
proof -
  have "snap_freq (1000000 div (13 * 2)) = 38000"
    by (simp add: snap_freq_def)
  then show ?thesis
    using analyze_estimate [OF assms(1,2,3), of 13] assms(4) by simp
qed

text \<open>
  The chain tests the window of 38000 first, so that of the windows of 36000 and 40000
  only the parts outside it are left.
\<close>

lemma snap_freq_windows:
  "snap_freq f =
     (if 35000 < f \<and> f < 41000 then 38000
      else if 33000 < f \<and> f \<le> 35000 then 36000
      else if 41000 \<le> f \<and> f < 42000 then 40000
      else f)"
  unfolding snap_freq_def
  by (auto simp: word_less_nat_alt word_le_nat_alt)

subsection \<open>An estimate nearer to another band\<close>

text \<open>
  Claim C5.  A valid signal whose shortest pulse is 14 microseconds has the raw estimate
  \<open>1000000 div (2 * 14) = 35714\<close>, which is nearer to 36000 than to 38000;
  \<open>ir_learning_analyze\<close> reports 38000, because the branch for 38000 is tried first
  and its window contains the upper part of the window of 36000.
\<close>

theorem analyze_snap_not_nearest:
  "ir_learning_analyze \<lparr>sig_name = ''tv'', timings = Some [14, 600, 560, 1690],
       timing_count = 4, carrier_freq = 0, total_duration_us = 0, valid = True\<rparr> =
     Inr \<lparr>avg_mark = 287, avg_space = 1145, min_pulse = 14, max_pulse = 1690,
          pulse_count = 4, estimated_freq = 38000\<rparr>
   \<and> (1000000 :: nat) div (2 * 14) = 35714
   \<and> \<bar>35714 - 36000 :: int\<bar> < \<bar>35714 - 38000\<bar>"
proof -
  have "ir_learning_analyze \<lparr>sig_name = ''tv'', timings = Some [14, 600, 560, 1690],
       timing_count = 4, carrier_freq = 0, total_duration_us = 0, valid = True\<rparr> =
     Inr \<lparr>avg_mark = 287, avg_space = 1145, min_pulse = 14, max_pulse = 1690,
          pulse_count = 4, estimated_freq = 38000\<rparr>"
    by code_simp
  moreover have "(1000000 :: nat) div (2 * 14) = 35714"
    by simp
  moreover have "\<bar>35714 - 36000 :: int\<bar> < \<bar>35714 - 38000\<bar>"
    by simp
  ultimately show ?thesis
    by (intro conjI)
qed
section \<open>Properties of the signal comparison\<close>

lemma timing_close_iff: "timing_close t1 t2 \<longleftrightarrow> \<bar>uint t1 - uint t2\<bar> \<le> 200"
proof (cases "t1 > t2")
  case True
  then have "uint (t1 - t2) = uint t1 - uint t2"
    by (simp add: uint_sub_if' word_less_def word_le_def)
  then show ?thesis
    using True by (simp add: timing_close_def word_le_def word_less_def)
next
  case False
  then have "uint (t2 - t1) = uint t2 - uint t1"
    by (simp add: uint_sub_if' word_less_def word_le_def)
  then show ?thesis
    using False by (simp add: timing_close_def word_le_def word_less_def)
qed

lemma compare_loop_count:
  assumes "timings s1 = Some b1" and "timings s2 = Some b2"
    and "n \<le> length b1" and "n \<le> length b2"
  shows "i \<le> n \<Longrightarrow>
         compare_loop s1 s2 i n m =
           Some (m + length (filter (\<lambda>j. timing_close (b1 ! j) (b2 ! j)) [i..<n]))"
proof (induction "n - i" arbitrary: i m)
  case 0
  then show ?case by (simp add: compare_loop.simps)
next
  case (Suc k)
  then have lt: "i < n" by simp
  have rd: "read_timing s1 i = Some (b1 ! i)" "read_timing s2 i = Some (b2 ! i)"
    using lt assms by (simp_all add: read_timing_def)
  have k: "k = n - (i + 1)" using Suc.hyps(2) by simp
  have step: "compare_loop s1 s2 i n m =
      compare_loop s1 s2 (i + 1) n (if timing_close (b1 ! i) (b2 ! i) then m + 1 else m)"
    using lt by (subst compare_loop.simps) (simp add: rd)
  have "[i..<n] = i # [i + 1..<n]"
    using lt by (simp add: upt_conv_Cons)
  then show ?case
    using Suc.hyps(1) [OF k, of "if timing_close (b1 ! i) (b2 ! i) then m + 1 else m"] lt
    by (simp add: step)
qed

lemma compare_loop_matching:
  assumes "timings s1 = Some b1" and "timings s2 = Some b2"
    and "n \<le> length b1" and "n \<le> length b2"
  shows "compare_loop s1 s2 0 n 0 = Some (matching_count b1 b2 n)"
  using compare_loop_count [OF assms, of 0 0]
  by (simp add: matching_count_def timing_close_iff)

lemma matching_count_le: "matching_count b1 b2 n \<le> n"
  unfolding matching_count_def
  using length_filter_le [of _ "[0..<n]"] by simp

lemma similarity_word:
  assumes "m \<le> n" and "0 < n" and "n < 65536"
  shows "(ucast ((word_of_nat m * 100 :: 32 word) div word_of_nat n) :: 8 word)
           = word_of_nat (m * 100 div n)"
proof -
  have "m * 100 < (2::nat) ^ LENGTH(32)" using assms by simp
  then have a: "unat (word_of_nat m * 100 :: 32 word) = m * 100"
    by (intro of_nat_inverse) simp_all
  have "n < (2::nat) ^ LENGTH(32)" using assms by simp
  then have b: "unat (word_of_nat n :: 32 word) = n"
    by (intro of_nat_inverse) simp_all
  have c: "(word_of_nat m * 100 :: 32 word) div word_of_nat n = word_of_nat (m * 100 div n)"
    by (simp only: word_arith_nat_div a b)
  have "m * 100 div n \<le> n * 100 div n"
    using assms(1) by (intro div_le_mono) simp
  then have "m * 100 div n \<le> 100"
    using assms(2) by simp
  then have "take_bit 32 (m * 100 div n) = m * 100 div n"
    by (intro take_bit_nat_eq_self) simp
  then show ?thesis
    unfolding c by (simp add: unsigned_of_nat)
qed

lemma min_len_eq:
  "(if (c1 :: 16 word) < c2 then unat c1 else unat c2) = min (unat c1) (unat c2)"
  by (simp add: word_less_nat_alt min_def)

lemma count_diff: "\<bar>uint (c1 :: 16 word) - uint c2\<bar> = \<bar>int (unat c1) - int (unat c2)\<bar>"
  by simp

lemma matching_count_same: "matching_count b b n = n"
  by (simp add: matching_count_def)

lemma compare_unfold:
  assumes "valid s1" and "valid s2" and "n = min (unat (timing_count s1)) (unat (timing_count s2))"
  shows "ir_learning_compare s1 s2 =
           (if \<bar>int (unat (timing_count s1)) - int (unat (timing_count s2))\<bar> > 10 then Inr 0
            else case compare_loop s1 s2 0 n 0 of
                   None \<Rightarrow> Inl BadPointer
                 | Some matches \<Rightarrow>
                     if n = 0 then Inl DivisionByZero
                     else Inr (ucast ((word_of_nat matches * 100 :: 32 word) div word_of_nat n)))"
  unfolding assms(3)
  using assms(1,2) by (simp add: ir_learning_compare_def min_len_eq Let_def)

lemma compare_general:
  assumes "valid s1" and "valid s2"
    and "timings s1 = Some b1" and "timings s2 = Some b2"
    and "unat (timing_count s1) \<le> length b1" and "unat (timing_count s2) \<le> length b2"
  shows "ir_learning_compare s1 s2 =
           (if \<bar>int (unat (timing_count s1)) - int (unat (timing_count s2))\<bar> > 10 then Inr 0
            else if min (unat (timing_count s1)) (unat (timing_count s2)) = 0
            then Inl DivisionByZero
            else Inr (word_of_nat
                   (matching_count b1 b2 (min (unat (timing_count s1)) (unat (timing_count s2)))
                      * 100 div min (unat (timing_count s1)) (unat (timing_count s2)))))"
proof -
  define n where "n = min (unat (timing_count s1)) (unat (timing_count s2))"
  have n1: "n \<le> length b1" and n2: "n \<le> length b2"
    using assms(5,6) by (simp_all add: n_def)
  have loop: "compare_loop s1 s2 0 n 0 = Some (matching_count b1 b2 n)"
    by (rule compare_loop_matching [OF assms(3,4) n1 n2])
  have "unat (timing_count s1) < 65536"
    using unsigned_less [of "timing_count s1"] by simp
  then have lt: "n < 65536" by (simp add: n_def)
  have "0 < n \<Longrightarrow> (ucast ((word_of_nat (matching_count b1 b2 n) * 100 :: 32 word)
                        div word_of_nat n) :: 8 word)
                   = word_of_nat (matching_count b1 b2 n * 100 div n)"
    using similarity_word [OF matching_count_le [of b1 b2 n] _ lt] by simp
  then have "ir_learning_compare s1 s2 =
           (if \<bar>int (unat (timing_count s1)) - int (unat (timing_count s2))\<bar> > 10 then Inr 0
            else if n = 0 then Inl DivisionByZero
            else Inr (word_of_nat (matching_count b1 b2 n * 100 div n)))"
    by (simp add: compare_unfold [OF assms(1,2) n_def] loop)
  then show ?thesis
    unfolding n_def .
qed

text \<open>
  Claim C6.  For two valid signals whose buffers hold their \<open>timing_count\<close> durations,
  \<open>ir_learning_compare\<close> returns 0 when the counts differ by more than 10; otherwise,
  with \<open>n\<close> the smaller count, it divides by zero when \<open>n\<close> is zero and else returns
  \<open>matches * 100 div n\<close>, where \<open>matches\<close> counts the positions below \<open>n\<close> that
  differ by at most 200: durations beyond \<open>n\<close> are not read.  A valid signal of 20
  durations compared with itself gives 100, and signals of 20 and 35 durations give 0.
\<close>

theorem compare_similarity:
  assumes "valid s1" and "valid s2"
    and "timings s1 = Some b1" and "timings s2 = Some b2"
    and "unat (timing_count s1) \<le> length b1" and "unat (timing_count s2) \<le> length b2"
  shows "ir_learning_compare s1 s2 =
           (if \<bar>int (unat (timing_count s1)) - int (unat (timing_count s2))\<bar> > 10 then Inr 0
            else if min (unat (timing_count s1)) (unat (timing_count s2)) = 0
            then Inl DivisionByZero
            else Inr (word_of_nat
                   (matching_count b1 b2 (min (unat (timing_count s1)) (unat (timing_count s2)))
                      * 100 div min (unat (timing_count s1)) (unat (timing_count s2)))))
         \<and> (s2 = s1 \<and> timing_count s1 = 20 \<longrightarrow> ir_learning_compare s1 s2 = Inr 100)
         \<and> (timing_count s1 = 20 \<and> timing_count s2 = 35 \<longrightarrow> ir_learning_compare s1 s2 = Inr 0)"
proof (intro conjI impI)
  show "ir_learning_compare s1 s2 =
           (if \<bar>int (unat (timing_count s1)) - int (unat (timing_count s2))\<bar> > 10 then Inr 0
            else if min (unat (timing_count s1)) (unat (timing_count s2)) = 0
            then Inl DivisionByZero
            else Inr (word_of_nat
                   (matching_count b1 b2 (min (unat (timing_count s1)) (unat (timing_count s2)))
                      * 100 div min (unat (timing_count s1)) (unat (timing_count s2)))))"
    by (rule compare_general [OF assms])
next
  assume a: "s2 = s1 \<and> timing_count s1 = 20"
  then have "b2 = b1" using assms(3,4) by simp
  then show "ir_learning_compare s1 s2 = Inr 100"
    using a compare_general [OF assms] by (simp add: matching_count_same)
next
  assume "timing_count s1 = 20 \<and> timing_count s2 = 35"
  then show "ir_learning_compare s1 s2 = Inr 0"
    using assms(1,2) by (simp add: ir_learning_compare_def)
qed

theorem compare_similarity_witness:
  "ir_learning_compare
     \<lparr>sig_name = ''a'', timings = Some (replicate 20 560), timing_count = 20,
       carrier_freq = 38000, total_duration_us = 0, valid = True\<rparr>
     \<lparr>sig_name = ''a'', timings = Some (replicate 20 560), timing_count = 20,
       carrier_freq = 38000, total_duration_us = 0, valid = True\<rparr> = Inr 100
   \<and> ir_learning_compare
     \<lparr>sig_name = ''a'', timings = Some (replicate 20 560), timing_count = 20,
       carrier_freq = 38000, total_duration_us = 0, valid = True\<rparr>
     \<lparr>sig_name = ''b'', timings = Some (replicate 35 560), timing_count = 35,
       carrier_freq = 38000, total_duration_us = 0, valid = True\<rparr> = Inr 0"
  using compare_similarity [of
     "\<lparr>sig_name = ''a'', timings = Some (replicate 20 560), timing_count = 20,
       carrier_freq = 38000, total_duration_us = 0, valid = True\<rparr>"
     "\<lparr>sig_name = ''a'', timings = Some (replicate 20 560), timing_count = 20,
       carrier_freq = 38000, total_duration_us = 0, valid = True\<rparr>"
     "replicate 20 560" "replicate 20 560"]
   compare_similarity [of
     "\<lparr>sig_name = ''a'', timings = Some (replicate 20 560), timing_count = 20,
       carrier_freq = 38000, total_duration_us = 0, valid = True\<rparr>"
     "\<lparr>sig_name = ''b'', timings = Some (replicate 35 560), timing_count = 35,
       carrier_freq = 38000, total_duration_us = 0, valid = True\<rparr>"
     "replicate 20 560" "replicate 35 560"]
  by (simp add: matching_count_same)

text \<open>
  Claim C10.  When both signals are valid and their counts differ by at most 10, the
  comparison reaches the division by \<open>min_len\<close>, and it divides by zero exactly when
  one of the signals has no timing; two valid signals of length 0 are such a pair.
\<close>

theorem compare_division_by_zero:
  assumes "valid s1" and "valid s2"
    and "\<bar>uint (timing_count s1) - uint (timing_count s2)\<bar> \<le> 10"
  shows "ir_learning_compare s1 s2 = Inl DivisionByZero \<longleftrightarrow>
           timing_count s1 = 0 \<or> timing_count s2 = 0"
proof -
  define n where "n = min (unat (timing_count s1)) (unat (timing_count s2))"
  have z: "n = 0 \<longleftrightarrow> timing_count s1 = 0 \<or> timing_count s2 = 0"
    by (auto simp: n_def min_def unat_eq_0)
  have d: "\<not> \<bar>int (unat (timing_count s1)) - int (unat (timing_count s2))\<bar> > 10"
    using assms(3) by simp
  have "ir_learning_compare s1 s2 = Inl DivisionByZero \<longleftrightarrow> n = 0"
  proof (cases "n = 0")
    case True
    have "compare_loop s1 s2 0 0 0 = Some 0"
      by (simp add: compare_loop.simps)
    then show ?thesis
      unfolding compare_unfold [OF assms(1,2) n_def]
      using d True by simp
  next
    case False
    then show ?thesis
      unfolding compare_unfold [OF assms(1,2) n_def]
      using d by (simp split: option.splits)
  qed
  then show ?thesis
    by (simp only: z)
qed

theorem compare_division_by_zero_witness:
  "ir_learning_compare
     \<lparr>sig_name = ''a'', timings = Some (replicate 512 0), timing_count = 0,
       carrier_freq = 0, total_duration_us = 0, valid = True\<rparr>
     \<lparr>sig_name = ''b'', timings = Some (replicate 512 0), timing_count = 0,
       carrier_freq = 0, total_duration_us = 0, valid = True\<rparr> = Inl DivisionByZero"
  using compare_division_by_zero [of
     "\<lparr>sig_name = ''a'', timings = Some (replicate 512 0), timing_count = 0,
       carrier_freq = 0, total_duration_us = 0, valid = True\<rparr>"
     "\<lparr>sig_name = ''b'', timings = Some (replicate 512 0), timing_count = 0,
       carrier_freq = 0, total_duration_us = 0, valid = True\<rparr>"]
  by simp

section \<open>Properties of the capture engine\<close>

lemma notify_fields [simp]:
  "current_signal (notify status sg st) = current_signal st"
  "edge_count (notify status sg st) = edge_count st"
  "active (notify status sg st) = active st"
  "end_timer (notify status sg st) = end_timer st"
  "timeout_timer (notify status sg st) = timeout_timer st"
  "rx_running (notify status sg st) = rx_running st"
  "callback (notify status sg st) = callback st"
  "start_time_us (notify status sg st) = start_time_us st"
  by (simp_all add: notify_def)

lemma capture_inv_notify [simp]: "capture_inv (notify status sg st) = capture_inv st"
  by (simp add: capture_inv_def)

lemma ucast_edge_count_le:
  assumes "unat (ec :: 32 word) \<le> 512"
  shows "unat (ucast ec :: 16 word) \<le> 512"
proof -
  have "unat (ucast ec :: 16 word) \<le> unat ec"
    by (simp add: unsigned_ucast_eq take_bit_nat_less_eq_self)
  then show ?thesis using assms by simp
qed

lemma capture_inv_end: "capture_inv st \<Longrightarrow> capture_inv (signal_end_handler st)"
  by (auto simp: signal_end_handler_def capture_inv_def Let_def ucast_edge_count_le)

lemma capture_inv_timeout: "capture_inv st \<Longrightarrow> capture_inv (learning_timeout_handler st)"
  by (auto simp: learning_timeout_handler_def capture_inv_def)

lemma edge_count_suc:
  assumes "unat (ec :: 32 word) < 512"
  shows "unat (ec + 1) = unat ec + 1"
  using assms by (simp add: unat_word_ariths)

lemma capture_inv_edge:
  assumes "capture_inv st"
  shows "capture_inv (learning_rx_callback d now st)"
proof (cases "active st \<and> \<not> d < MIN_PULSE_US")
  case False
  then show ?thesis
    using assms by (auto simp: learning_rx_callback_def)
next
  case run: True
  show ?thesis
  proof (cases "timings (current_signal st)")
    case None
    then show ?thesis
      using assms run by (simp add: learning_rx_callback_def capture_inv_def)
  next
    case (Some buf)
    define st1 where
      "st1 = (if edge_count st = 0
              then notify IR_LEARN_RECEIVING None (st\<lparr>start_time_us := now\<rparr>) else st)"
    have inv1: "capture_inv st1"
      using assms by (simp add: st1_def capture_inv_def)
    have sig1: "current_signal st1 = current_signal st" "edge_count st1 = edge_count st"
      by (simp_all add: st1_def)
    show ?thesis
    proof (cases "unat (edge_count st1) \<ge> IR_LEARNING_MAX_EDGES")
      case True
      have "capture_inv (st1\<lparr>end_timer := False\<rparr>)"
        using inv1 by (simp add: capture_inv_def)
      then have "capture_inv (signal_end_handler (st1\<lparr>end_timer := False\<rparr>))"
        by (rule capture_inv_end)
      then show ?thesis
        using run Some True
        by (simp add: learning_rx_callback_def st1_def [symmetric] Let_def)
    next
      case False
      then have "unat (edge_count st1 + 1) \<le> IR_LEARNING_MAX_EDGES"
        by (simp add: edge_count_suc)
      then show ?thesis
        using run Some False inv1 sig1
        by (simp add: learning_rx_callback_def st1_def [symmetric] Let_def capture_inv_def)
    qed
  qed
qed

lemma capture_inv_init: "capture_inv (snd (ir_learning_init alloc_ok))"
  by (simp add: ir_learning_init_def capture_inv_def empty_signal_def Let_def)

lemma capture_inv_start:
  "capture_inv st \<Longrightarrow> capture_inv (snd (ir_learning_start nm cb tmo rx st))"
  by (auto simp: ir_learning_start_def capture_inv_def empty_signal_def Let_def
      split: option.splits)

lemma capture_inv_stop: "capture_inv st \<Longrightarrow> capture_inv (snd (ir_learning_stop st))"
  by (simp add: ir_learning_stop_def capture_inv_def)

lemma reachable_inv: "reachable st \<Longrightarrow> capture_inv st"
proof (induction rule: reachable.induct)
  case (r_init alloc_ok)
  show ?case by (rule capture_inv_init)
next
  case (r_start st nm cb tmo rx)
  then show ?case by (simp add: capture_inv_start)
next
  case (r_stop st)
  then show ?case by (simp add: capture_inv_stop)
next
  case (r_edge st d now)
  then show ?case by (simp add: capture_inv_edge)
next
  case (r_end st)
  then have "capture_inv (st\<lparr>end_timer := False\<rparr>)"
    by (simp add: capture_inv_def)
  then show ?case
    using r_end by (simp add: end_timer_expiry_def capture_inv_end)
next
  case (r_timeout st)
  then have "capture_inv (st\<lparr>timeout_timer := False\<rparr>)"
    by (simp add: capture_inv_def)
  then show ?case
    using r_timeout by (simp add: timeout_timer_expiry_def capture_inv_timeout)
qed

lemma overflow_step:
  assumes "active st" and "timings (current_signal st) = Some buf"
    and "MIN_PULSE_US \<le> d" and "IR_LEARNING_MAX_EDGES \<le> unat (edge_count st)"
  shows "learning_rx_callback d now st = signal_end_handler (st\<lparr>end_timer := False\<rparr>)"
proof -
  have nz: "edge_count st \<noteq> 0"
    using assms(4) by auto
  have "\<not> d < MIN_PULSE_US"
    using assms(3) by simp
  then show ?thesis
    using assms nz
    by (simp add: learning_rx_callback_def Let_def)
qed

text \<open>
  Claim C7.  When the engine is active, the buffer is allocated and an edge of at least
  \<open>MIN_PULSE_US\<close> arrives while \<open>edge_count\<close> is \<open>IR_LEARNING_MAX_EDGES\<close>, the
  capture ends at once as a completion: the signal is valid, \<open>timing_count\<close> is the
  512 edges recorded, the buffer is unchanged, the engine is inactive with the end timer
  and the edge source stopped, and the only notification added is Completed with the
  finished signal (none when no callback is registered); no Error is notified.  In every
  state that the engine can reach, \<open>edge_count\<close> and \<open>timing_count\<close> are at most
  \<open>IR_LEARNING_MAX_EDGES\<close>.
\<close>

theorem buffer_full_completes:
  "(active st \<and> timings (current_signal st) = Some buf \<and> MIN_PULSE_US \<le> d \<and>
    unat (edge_count st) = IR_LEARNING_MAX_EDGES \<longrightarrow>
      valid (current_signal (learning_rx_callback d now st)) \<and>
      unat (timing_count (current_signal (learning_rx_callback d now st)))
        = IR_LEARNING_MAX_EDGES \<and>
      timings (current_signal (learning_rx_callback d now st)) = Some buf \<and>
      \<not> active (learning_rx_callback d now st) \<and>
      \<not> end_timer (learning_rx_callback d now st) \<and>
      \<not> rx_running (learning_rx_callback d now st) \<and>
      notifications (learning_rx_callback d now st) =
        notifications st @
          (if callback st
           then [(IR_LEARN_COMPLETED, Some (current_signal (learning_rx_callback d now st)))]
           else []))
   \<and> (reachable s \<longrightarrow>
        unat (edge_count s) \<le> IR_LEARNING_MAX_EDGES \<and>
        unat (timing_count (current_signal s)) \<le> IR_LEARNING_MAX_EDGES)"
proof (intro conjI impI)
  assume "reachable s"
  then have "capture_inv s" by (rule reachable_inv)
  then show "unat (edge_count s) \<le> IR_LEARNING_MAX_EDGES"
    and "unat (timing_count (current_signal s)) \<le> IR_LEARNING_MAX_EDGES"
    by (simp_all add: capture_inv_def)
next
  assume a: "active st \<and> timings (current_signal st) = Some buf \<and> MIN_PULSE_US \<le> d \<and>
    unat (edge_count st) = IR_LEARNING_MAX_EDGES"
  then have ec: "edge_count st = 512"
    by (simp add: word_unat_eq_iff)
  have step: "learning_rx_callback d now st = signal_end_handler (st\<lparr>end_timer := False\<rparr>)"
    using a by (intro overflow_step) simp_all
  show "valid (current_signal (learning_rx_callback d now st))"
    and "unat (timing_count (current_signal (learning_rx_callback d now st)))
        = IR_LEARNING_MAX_EDGES"
    and "timings (current_signal (learning_rx_callback d now st)) = Some buf"
    and "\<not> active (learning_rx_callback d now st)"
    and "\<not> end_timer (learning_rx_callback d now st)"
    and "\<not> rx_running (learning_rx_callback d now st)"
    using a by (simp_all add: step ec signal_end_handler_def Let_def)
  show "notifications (learning_rx_callback d now st) =
        notifications st @
          (if callback st
           then [(IR_LEARN_COMPLETED, Some (current_signal (learning_rx_callback d now st)))]
           else [])"
    using a by (simp add: step ec signal_end_handler_def Let_def notify_def)
qed


theorem buffer_full_completes_witness:
  "active full_state \<and> unat (edge_count full_state) = 512
   \<and> valid (current_signal (learning_rx_callback 600 9 full_state))
   \<and> unat (timing_count (current_signal (learning_rx_callback 600 9 full_state))) = 512
   \<and> \<not> active (learning_rx_callback 600 9 full_state)
   \<and> notifications (learning_rx_callback 600 9 full_state) =
       [(IR_LEARN_WAITING, None), (IR_LEARN_RECEIVING, None),
        (IR_LEARN_COMPLETED, Some (current_signal (learning_rx_callback 600 9 full_state)))]
   \<and> reachable (snd (ir_learning_init True))
   \<and> unat (timing_count (current_signal (snd (ir_learning_init True)))) \<le> 512"
proof -
  have r: "reachable (snd (ir_learning_init True))"
    by (rule r_init)
  have h: "active full_state" "timings (current_signal full_state) = Some (replicate 512 600)"
    "unat (edge_count full_state) = 512" "callback full_state"
    "notifications full_state = [(IR_LEARN_WAITING, None), (IR_LEARN_RECEIVING, None)]"
    by (simp_all add: full_state_def)
  show ?thesis
    using buffer_full_completes [of full_state "replicate 512 600" 600 9
        "snd (ir_learning_init True)"] r h
    by simp
qed

text \<open>The engine does reach a full buffer: after 512 accepted edges of one session.\<close>

lemma session_start_reachable: "reachable session_start"
  unfolding session_start_def by (intro r_start r_init)

lemma after_edges_state:
  "k \<le> IR_LEARNING_MAX_EDGES \<Longrightarrow>
   reachable (after_edges k) \<and> active (after_edges k) \<and>
   unat (edge_count (after_edges k)) = k \<and>
   timings (current_signal (after_edges k)) \<noteq> None"
proof (induction k)
  case 0
  have "active session_start" "edge_count session_start = 0"
    "timings (current_signal session_start) \<noteq> None"
    by (simp_all add: session_start_def ir_learning_start_def ir_learning_init_def
          empty_signal_def Let_def)
  then show ?case
    by (simp add: after_edges_def session_start_reachable)
next
  case (Suc k)
  let ?st = "after_edges k"
  have ih: "reachable ?st" "active ?st" "unat (edge_count ?st) = k"
    "timings (current_signal ?st) \<noteq> None"
    using Suc by simp_all
  obtain buf where buf: "timings (current_signal ?st) = Some buf"
    using ih(4) by auto
  have lt: "unat (edge_count ?st) < IR_LEARNING_MAX_EDGES"
    using ih(3) Suc.prems by simp
  have next_state: "after_edges (Suc k) = learning_rx_callback 600 0 ?st"
    by (simp add: after_edges_def)
  have "unat (edge_count (learning_rx_callback 600 0 ?st)) = Suc k"
    using ih(2,3) buf lt
    by (auto simp: learning_rx_callback_def Let_def edge_count_suc)
  moreover have "active (learning_rx_callback 600 0 ?st)"
    "timings (current_signal (learning_rx_callback 600 0 ?st)) \<noteq> None"
    using ih(2) buf lt
    by (simp_all add: learning_rx_callback_def Let_def)
  moreover have "reachable (learning_rx_callback 600 0 ?st)"
    using ih(1) by (rule r_edge)
  ultimately show ?case
    by (simp only: next_state) simp
qed

lemma full_buffer_reachable:
  "\<exists>st buf. reachable st \<and> active st \<and> timings (current_signal st) = Some buf \<and>
            unat (edge_count st) = IR_LEARNING_MAX_EDGES"
  using after_edges_state [of 512] by auto

section \<open>Properties of the database cache\<close>

subsection \<open>The slot chosen by a put\<close>

lemma select_loop_inv:
  assumes "i \<le> IRDB_CACHE_SIZE" and "target_idx \<le> i" and "target_idx < IRDB_CACHE_SIZE"
    and "\<forall>j<i. cache_valid (c ! j)"
    and "\<forall>j<i. oldest_time \<le> last_access (c ! j)"
    and "\<forall>j<target_idx. oldest_time < last_access (c ! j)"
    and "last_access (c ! target_idx) \<le> oldest_time"
  shows "lru_choice c (select_loop c i target_idx oldest_time)"
  using assms
proof (induction c i target_idx oldest_time rule: select_loop.induct)
  case (1 c i target_idx oldest_time)
  show ?case
  proof (cases "i < IRDB_CACHE_SIZE")
    case False
    then have i4: "i = IRDB_CACHE_SIZE" using "1.prems"(1) by simp
    have res: "select_loop c i target_idx oldest_time = target_idx"
      using False by (simp add: select_loop.simps)
    have a: "\<forall>j<4. last_access (c ! target_idx) \<le> last_access (c ! j)"
      using "1.prems"(5,7) i4 by (meson order_trans)
    have b: "\<forall>j<target_idx. last_access (c ! target_idx) < last_access (c ! j)"
      using "1.prems"(6,7) by (meson order_le_less_trans)
    show ?thesis
      unfolding res lru_choice_def
      using "1.prems"(3,4) i4 a b by auto
  next
    case lt: True
    show ?thesis
    proof (cases "cache_valid (c ! i)")
      case False
      then have res: "select_loop c i target_idx oldest_time = i"
        using lt by (simp add: select_loop.simps)
      show ?thesis
        unfolding res lru_choice_def
        using lt False "1.prems"(4) by auto
    next
      case v: True
      show ?thesis
      proof (cases "last_access (c ! i) < oldest_time")
        case True
        have res: "select_loop c i target_idx oldest_time =
                     select_loop c (i + 1) i (last_access (c ! i))"
          using lt v True by (subst select_loop.simps) simp
        have "lru_choice c (select_loop c (i + 1) i (last_access (c ! i)))"
        proof (rule "1.IH"(1) [OF lt _ True])
          show "\<not> \<not> cache_valid (c ! i)" using v by simp
          show "i + 1 \<le> IRDB_CACHE_SIZE" using lt by simp
          show "i \<le> i + 1" by simp
          show "i < IRDB_CACHE_SIZE" by (rule lt)
          show "\<forall>j<i + 1. cache_valid (c ! j)"
            using "1.prems"(4) v by (auto simp: less_Suc_eq)
          show "\<forall>j<i + 1. last_access (c ! i) \<le> last_access (c ! j)"
            using "1.prems"(5) True by (auto simp: less_Suc_eq intro: less_imp_le order_less_le_trans)
          show "\<forall>j<i. last_access (c ! i) < last_access (c ! j)"
            using "1.prems"(5) True by (auto intro: order_less_le_trans)
          show "last_access (c ! i) \<le> last_access (c ! i)" by simp
        qed
        then show ?thesis by (simp only: res)
      next
        case False
        have res: "select_loop c i target_idx oldest_time =
                     select_loop c (i + 1) target_idx oldest_time"
          using lt v False by (subst select_loop.simps) simp
        have "lru_choice c (select_loop c (i + 1) target_idx oldest_time)"
        proof (rule "1.IH"(2) [OF lt _ False])
          show "\<not> \<not> cache_valid (c ! i)" using v by simp
          show "i + 1 \<le> IRDB_CACHE_SIZE" using lt by simp
          show "target_idx \<le> i + 1" using "1.prems"(2) by simp
          show "target_idx < IRDB_CACHE_SIZE" by (rule "1.prems"(3))
          show "\<forall>j<i + 1. cache_valid (c ! j)"
            using "1.prems"(4) v by (auto simp: less_Suc_eq)
          show "\<forall>j<i + 1. oldest_time \<le> last_access (c ! j)"
            using "1.prems"(5) False by (auto simp: less_Suc_eq not_less)
          show "\<forall>j<target_idx. oldest_time < last_access (c ! j)"
            by (rule "1.prems"(6))
          show "last_access (c ! target_idx) \<le> oldest_time"
            by (rule "1.prems"(7))
        qed
        then show ?thesis by (simp only: res)
      qed
    qed
  qed
qed

lemma word32_le_max: "(x :: 32 word) \<le> 0xFFFFFFFF"
proof -
  have "unat x < 2 ^ 32"
    using unsigned_less [of x] by simp
  then show ?thesis
    by (simp add: word_le_nat_alt)
qed

lemma select_target_lru: "lru_choice c (select_target c)"
  unfolding select_target_def
  by (rule select_loop_inv) (simp_all add: word32_le_max)

lemma lru_choice_unique:
  assumes "lru_choice c t" and "lru_choice c t'"
  shows "t = t'"
proof (rule ccontr)
  assume ne: "t \<noteq> t'"
  show False
  proof (cases "\<exists>j \<in> {0..<IRDB_CACHE_SIZE}. \<not> cache_valid (c ! j)")
    case True
    then have "\<not> cache_valid (c ! t)" "\<forall>j \<in> {0..<t}. cache_valid (c ! j)"
      "\<not> cache_valid (c ! t')" "\<forall>j \<in> {0..<t'}. cache_valid (c ! j)"
      using assms by (simp_all add: lru_choice_def)
    then show False
      using ne by (metis atLeastLessThan_iff le0 linorder_neqE_nat)
  next
    case False
    then have a: "\<forall>j \<in> {0..<t}. last_access (c ! t) < last_access (c ! j)"
      "\<forall>j \<in> {0..<IRDB_CACHE_SIZE}. last_access (c ! t) \<le> last_access (c ! j)"
      "\<forall>j \<in> {0..<t'}. last_access (c ! t') < last_access (c ! j)"
      "\<forall>j \<in> {0..<IRDB_CACHE_SIZE}. last_access (c ! t') \<le> last_access (c ! j)"
      "t < IRDB_CACHE_SIZE" "t' < IRDB_CACHE_SIZE"
      using assms by (simp_all add: lru_choice_def)
    consider "t < t'" | "t' < t" using ne by linarith
    then show False
    proof cases
      case 1
      then have "last_access (c ! t') < last_access (c ! t)" using a(3) by simp
      moreover have "last_access (c ! t) \<le> last_access (c ! t')" using a(2,6) by simp
      ultimately show False by simp
    next
      case 2
      then have "last_access (c ! t) < last_access (c ! t')" using a(1) by simp
      moreover have "last_access (c ! t') \<le> last_access (c ! t)" using a(4,5) by simp
      ultimately show False by simp
    qed
  qed
qed

lemma cache_get_hit:
  assumes "i < IRDB_CACHE_SIZE" and "cache_valid (cache st ! i)" and "path (cache st ! i) = k"
    and "\<forall>j \<in> {0..<i}. \<not> (cache_valid (cache st ! j) \<and> path (cache st ! j) = k)"
  shows "irdb_cache_get k now st =
           (Inr i, st\<lparr>cache := (cache st)[i := (cache st ! i)\<lparr>last_access := now\<rparr>]\<rparr>)"
proof -
  have "find (\<lambda>i. cache_valid (cache st ! i) \<and> path (cache st ! i) = k) [0..<IRDB_CACHE_SIZE]
          = Some i"
    unfolding find_Some_iff
    using assms by (intro exI [of _ i]) auto
  then show ?thesis
    by (simp add: irdb_cache_get_def)
qed

lemma cache_get_miss:
  assumes "\<forall>j \<in> {0..<IRDB_CACHE_SIZE}. \<not> (cache_valid (cache st ! j) \<and> path (cache st ! j) = k)"
  shows "irdb_cache_get k now st = (Inl ENOENT, st)"
proof -
  have "find (\<lambda>i. cache_valid (cache st ! i) \<and> path (cache st ! i) = k) [0..<IRDB_CACHE_SIZE]
          = None"
    unfolding find_None_iff using assms by auto
  then show ?thesis
    by (simp add: irdb_cache_get_def)
qed

lemma refreshed_not_target:
  assumes len: "length c = IRDB_CACHE_SIZE" and i: "i < IRDB_CACHE_SIZE"
    and v: "cache_valid (c ! i)"
    and other: "\<exists>j \<in> {0..<IRDB_CACHE_SIZE}. j \<noteq> i \<and>
                  (\<not> cache_valid (c ! j) \<or> last_access (c ! j) < now)"
  shows "select_target (c[i := (c ! i)\<lparr>last_access := now\<rparr>]) \<noteq> i"
proof
  let ?c = "c[i := (c ! i)\<lparr>last_access := now\<rparr>]"
  assume eq: "select_target ?c = i"
  have lru: "lru_choice ?c i"
    using select_target_lru [of ?c] eq by simp
  obtain j where j: "j < IRDB_CACHE_SIZE" "j \<noteq> i"
      "\<not> cache_valid (c ! j) \<or> last_access (c ! j) < now"
    using other by auto
  have ci: "?c ! i = (c ! i)\<lparr>last_access := now\<rparr>"
    using len i by simp
  have cj: "?c ! j = c ! j"
    using j(2) by simp
  show False
  proof (cases "\<exists>m \<in> {0..<IRDB_CACHE_SIZE}. \<not> cache_valid (?c ! m)")
    case True
    then have "\<not> cache_valid (?c ! i)"
      using lru by (simp add: lru_choice_def)
    then show False
      using v ci by simp
  next
    case False
    then have "cache_valid (?c ! j)"
      using j(1) by auto
    then have lt: "last_access (c ! j) < now"
      using j(3) cj by simp
    have "\<forall>m \<in> {0..<IRDB_CACHE_SIZE}. last_access (?c ! i) \<le> last_access (?c ! m)"
      using lru False by (simp add: lru_choice_def)
    then have "last_access (?c ! i) \<le> last_access (?c ! j)"
      using j(1) by simp
    then have "now \<le> last_access (c ! j)"
      by (simp only: ci cj) simp
    then show False
      using lt by simp
  qed
qed

lemma database_overwritten:
  "(d :: irdb_database)\<lparr>entry_count := n, entries := e, manufacturer := m,
                              device_type := t\<rparr> =
     \<lparr>manufacturer = m, device_type = t, entries = e, entry_count = n\<rparr>"
  by (cases d) simp

lemma slot_overwritten:
  "(s :: irdb_cache_entry)\<lparr>path := p, database := d, last_access := t,
                                cache_valid := v\<rparr> =
     \<lparr>path = p, database = d, last_access = t, cache_valid = v\<rparr>"
  by (cases s) simp

lemma read_db_other:
  assumes "db \<noteq> Slot t"
  shows "read_db db (c[t := x]) = read_db db c"
  using assms by (cases db) (auto simp: read_db_def)

lemma cache_put_success:
  assumes "db_in_range dbp" and "dbp \<noteq> Slot (select_target (cache st))"
    and "read_db dbp (cache st) = db"
    and "source_entries db (snd (free_old (cache st ! select_target (cache st)) (heap st)))
             = Some es"
  shows "irdb_cache_put key dbp now (Some a) st =
           (Inr (),
            \<lparr>cache = (cache st)[select_target (cache st) :=
                 \<lparr>path = strncpy 127 key,
                  database = \<lparr>manufacturer = strncpy 63 (manufacturer db),
                              device_type = strncpy 63 (device_type db),
                              entries = Some a, entry_count = entry_count db\<rparr>,
                  last_access = now, cache_valid = True\<rparr>],
             heap = (snd (free_old (cache st ! select_target (cache st)) (heap st)))
                      (a := Some es)\<rparr>)"
  using assms(1,3,4)
  by (simp add: irdb_cache_put_def Let_def read_db_other [OF assms(2)]
        database_overwritten slot_overwritten)

text \<open>
  When \<open>db\<close> is the database of the slot that is filled, as \<open>irdb_cache_get\<close> handed
  it out, and the slot is valid and owns a block, the clean-up zeroes the database before
  it is read: the slot ends up valid with no entries and empty labels.
\<close>

lemma cache_put_aliased:
  assumes "length (cache st) = IRDB_CACHE_SIZE"
    and "cache_valid (cache st ! select_target (cache st))"
    and "entries (database (cache st ! select_target (cache st))) = Some b"
  shows "irdb_cache_put key (Slot (select_target (cache st))) now (Some a) st =
           (Inr (),
            \<lparr>cache = (cache st)[select_target (cache st) :=
                 \<lparr>path = strncpy 127 key,
                  database = \<lparr>manufacturer = [], device_type = [],
                              entries = Some a, entry_count = 0\<rparr>,
                  last_access = now, cache_valid = True\<rparr>],
             heap = ((heap st)(b := None))(a := Some [])\<rparr>)"
proof -
  have t: "select_target (cache st) < IRDB_CACHE_SIZE"
    using select_target_lru [of "cache st"] by (simp add: lru_choice_def)
  have fr: "free_old (cache st ! select_target (cache st)) (heap st) =
              (zero_database, (heap st)(b := None))"
    using assms(2,3) by (simp add: free_old_def irdb_free_database_def)
  show ?thesis
    using t assms(1)
    by (simp add: irdb_cache_put_def Let_def db_in_range_def read_db_def fr
          source_entries_def zero_database_def strncpy_def slot_overwritten)
qed

lemma free_old_heap:
  "snd (free_old slot h) =
     (if cache_valid slot
      then (case entries (database slot) of None \<Rightarrow> h | Some b \<Rightarrow> h(b := None))
      else h)"
  by (simp add: free_old_def irdb_free_database_def split: option.splits)

lemma source_not_fresh:
  assumes "source_entries db h = Some es" and "entry_count db \<noteq> 0" and "h a = None"
  shows "entries db \<noteq> Some a"
  using assms by (auto simp: source_entries_def split: option.splits if_splits)

lemma select_target_iff: "select_target c = t \<longleftrightarrow> lru_choice c t"
  using select_target_lru [of c] lru_choice_unique [of c t "select_target c"] by auto

lemma refreshed_is_target_iff:
  assumes len: "length c = IRDB_CACHE_SIZE" and i: "i < IRDB_CACHE_SIZE"
    and v: "cache_valid (c ! i)"
  shows "select_target (c[i := (c ! i)\<lparr>last_access := now\<rparr>]) = i \<longleftrightarrow>
           (\<forall>j \<in> {0..<IRDB_CACHE_SIZE}. cache_valid (c ! j)) \<and>
           (\<forall>j \<in> {0..<i}. now < last_access (c ! j)) \<and>
           (\<forall>j \<in> {i + 1..<IRDB_CACHE_SIZE}. now \<le> last_access (c ! j))"
proof -
  let ?c = "c[i := (c ! i)\<lparr>last_access := now\<rparr>]"
  have val: "cache_valid (?c ! j) = cache_valid (c ! j)" for j
    using len i by (cases "j = i") simp_all
  have la: "last_access (?c ! j) = (if j = i then now else last_access (c ! j))" for j
    using len i by (cases "j = i") simp_all
  have allv: "(\<exists>j \<in> {0..<IRDB_CACHE_SIZE}. \<not> cache_valid (?c ! j)) \<longleftrightarrow>
              \<not> (\<forall>j \<in> {0..<IRDB_CACHE_SIZE}. cache_valid (c ! j))"
    using val by auto
  have vi: "cache_valid (?c ! i)"
    using val [of i] v by simp
  have ge: "(\<forall>j \<in> {0..<IRDB_CACHE_SIZE}. last_access (?c ! i) \<le> last_access (?c ! j)) \<longleftrightarrow>
            (\<forall>j \<in> {0..<IRDB_CACHE_SIZE}. j \<noteq> i \<longrightarrow> now \<le> last_access (c ! j))"
    using la i by auto
  have gt: "(\<forall>j \<in> {0..<i}. last_access (?c ! i) < last_access (?c ! j)) \<longleftrightarrow>
            (\<forall>j \<in> {0..<i}. now < last_access (c ! j))"
    using la i by auto
  have split: "(\<forall>j \<in> {0..<IRDB_CACHE_SIZE}. j \<noteq> i \<longrightarrow> now \<le> last_access (c ! j)) \<and>
               (\<forall>j \<in> {0..<i}. now < last_access (c ! j)) \<longleftrightarrow>
               (\<forall>j \<in> {0..<i}. now < last_access (c ! j)) \<and>
               (\<forall>j \<in> {i + 1..<IRDB_CACHE_SIZE}. now \<le> last_access (c ! j))"
  proof -
    have "\<And>j. j < IRDB_CACHE_SIZE \<Longrightarrow> j \<noteq> i \<Longrightarrow> j < i \<or> i + 1 \<le> j"
      by auto
    then show ?thesis
      using i by (auto intro: less_imp_le)
  qed
  have "lru_choice ?c i \<longleftrightarrow>
          (\<forall>j \<in> {0..<IRDB_CACHE_SIZE}. cache_valid (c ! j)) \<and>
          (\<forall>j \<in> {0..<IRDB_CACHE_SIZE}. j \<noteq> i \<longrightarrow> now \<le> last_access (c ! j)) \<and>
          (\<forall>j \<in> {0..<i}. now < last_access (c ! j))"
    unfolding lru_choice_def allv ge gt using i vi by auto
  then show ?thesis
    unfolding select_target_iff using split by blast
qed

subsection \<open>Put and get\<close>

text \<open>
  Claim C8, as amended.  \<open>irdb_cache_put\<close> fills the first invalid slot if there is
  one, otherwise the slot with the smallest timestamp, the lowest index among equal ones.
  For a database that is not the one held in the chosen slot, when the allocation succeeds
  and the entries can be read, the slot becomes valid with the key, copies of the labels,
  the given timestamp and a new block that holds a copy of the entries; the block that a
  valid slot owned before is freed, and the new block is not the source's.
  \<open>irdb_cache_get\<close> on a hit returns the first valid slot with the key and sets its
  timestamp.  The next \<open>irdb_cache_put\<close> chooses the slot that was hit exactly when
  every slot is valid, every slot of a lower index has a timestamp greater than the new
  one and every slot of a higher index has a timestamp that is not smaller: the get
  protects the key from the next eviction whenever some other slot is invalid, or is
  older, or is as old and has a lower index.
\<close>

theorem cache_put_get_lru:
  assumes "length (cache st) = IRDB_CACHE_SIZE"
  shows "lru_choice (cache st) (select_target (cache st))
    \<and> (db_in_range dbp \<and> dbp \<noteq> Slot (select_target (cache st)) \<and>
        read_db dbp (cache st) = db \<and>
        source_entries db (snd (free_old (cache st ! select_target (cache st)) (heap st)))
          = Some es \<longrightarrow>
        irdb_cache_put key dbp now (Some a) st =
          (Inr (),
           \<lparr>cache = (cache st)[select_target (cache st) :=
                \<lparr>path = strncpy 127 key,
                 database = \<lparr>manufacturer = strncpy 63 (manufacturer db),
                             device_type = strncpy 63 (device_type db),
                             entries = Some a, entry_count = entry_count db\<rparr>,
                 last_access = now, cache_valid = True\<rparr>],
            heap = (snd (free_old (cache st ! select_target (cache st)) (heap st)))
                     (a := Some es)\<rparr>)
        \<and> (\<forall>b. cache_valid (cache st ! select_target (cache st)) \<and>
                 entries (database (cache st ! select_target (cache st))) = Some b \<and> b \<noteq> a
                 \<longrightarrow> heap (snd (irdb_cache_put key dbp now (Some a) st)) b = None)
        \<and> (snd (free_old (cache st ! select_target (cache st)) (heap st)) a = None \<and>
            entry_count db \<noteq> 0 \<longrightarrow> entries db \<noteq> Some a))
    \<and> (i < IRDB_CACHE_SIZE \<and> cache_valid (cache st ! i) \<and> path (cache st ! i) = k \<and>
        (\<forall>j \<in> {0..<i}. \<not> (cache_valid (cache st ! j) \<and> path (cache st ! j) = k)) \<longrightarrow>
        irdb_cache_get k t2 st =
          (Inr i, st\<lparr>cache := (cache st)[i := (cache st ! i)\<lparr>last_access := t2\<rparr>]\<rparr>)
        \<and> (select_target (cache (snd (irdb_cache_get k t2 st))) = i \<longleftrightarrow>
             (\<forall>j \<in> {0..<IRDB_CACHE_SIZE}. cache_valid (cache st ! j)) \<and>
             (\<forall>j \<in> {0..<i}. t2 < last_access (cache st ! j)) \<and>
             (\<forall>j \<in> {i + 1..<IRDB_CACHE_SIZE}. t2 \<le> last_access (cache st ! j))))"
proof (intro conjI impI allI)
  show "lru_choice (cache st) (select_target (cache st))"
    by (rule select_target_lru)
next
  assume src: "db_in_range dbp \<and> dbp \<noteq> Slot (select_target (cache st)) \<and>
        read_db dbp (cache st) = db \<and>
        source_entries db (snd (free_old (cache st ! select_target (cache st)) (heap st)))
          = Some es"
  show "irdb_cache_put key dbp now (Some a) st =
          (Inr (),
           \<lparr>cache = (cache st)[select_target (cache st) :=
                \<lparr>path = strncpy 127 key,
                 database = \<lparr>manufacturer = strncpy 63 (manufacturer db),
                             device_type = strncpy 63 (device_type db),
                             entries = Some a, entry_count = entry_count db\<rparr>,
                 last_access = now, cache_valid = True\<rparr>],
            heap = (snd (free_old (cache st ! select_target (cache st)) (heap st)))
                     (a := Some es)\<rparr>)"
    using src by (intro cache_put_success) simp_all
next
  fix b
  assume src: "db_in_range dbp \<and> dbp \<noteq> Slot (select_target (cache st)) \<and>
        read_db dbp (cache st) = db \<and>
        source_entries db (snd (free_old (cache st ! select_target (cache st)) (heap st)))
          = Some es"
    and old: "cache_valid (cache st ! select_target (cache st)) \<and>
              entries (database (cache st ! select_target (cache st))) = Some b \<and> b \<noteq> a"
  have "irdb_cache_put key dbp now (Some a) st =
          (Inr (),
           \<lparr>cache = (cache st)[select_target (cache st) :=
                \<lparr>path = strncpy 127 key,
                 database = \<lparr>manufacturer = strncpy 63 (manufacturer db),
                             device_type = strncpy 63 (device_type db),
                             entries = Some a, entry_count = entry_count db\<rparr>,
                 last_access = now, cache_valid = True\<rparr>],
            heap = (snd (free_old (cache st ! select_target (cache st)) (heap st)))
                     (a := Some es)\<rparr>)"
    using src by (intro cache_put_success) simp_all
  then show "heap (snd (irdb_cache_put key dbp now (Some a) st)) b = None"
    using old by (simp add: free_old_heap)
next
  assume src: "db_in_range dbp \<and> dbp \<noteq> Slot (select_target (cache st)) \<and>
        read_db dbp (cache st) = db \<and>
        source_entries db (snd (free_old (cache st ! select_target (cache st)) (heap st)))
          = Some es"
    and fresh: "snd (free_old (cache st ! select_target (cache st)) (heap st)) a = None \<and>
            entry_count db \<noteq> 0"
  have s: "source_entries db (snd (free_old (cache st ! select_target (cache st)) (heap st)))
             = Some es"
    using src by simp
  show "entries db \<noteq> Some a"
    using fresh by (intro source_not_fresh [OF s]) simp_all
next
  assume hit: "i < IRDB_CACHE_SIZE \<and> cache_valid (cache st ! i) \<and> path (cache st ! i) = k \<and>
        (\<forall>j \<in> {0..<i}. \<not> (cache_valid (cache st ! j) \<and> path (cache st ! j) = k))"
  then show get: "irdb_cache_get k t2 st =
          (Inr i, st\<lparr>cache := (cache st)[i := (cache st ! i)\<lparr>last_access := t2\<rparr>]\<rparr>)"
    by (intro cache_get_hit) simp_all
  have "select_target ((cache st)[i := (cache st ! i)\<lparr>last_access := t2\<rparr>]) = i \<longleftrightarrow>
             (\<forall>j \<in> {0..<IRDB_CACHE_SIZE}. cache_valid (cache st ! j)) \<and>
             (\<forall>j \<in> {0..<i}. t2 < last_access (cache st ! j)) \<and>
             (\<forall>j \<in> {i + 1..<IRDB_CACHE_SIZE}. t2 \<le> last_access (cache st ! j))"
    using assms hit by (intro refreshed_is_target_iff) simp_all
  then show "select_target (cache (snd (irdb_cache_get k t2 st))) = i \<longleftrightarrow>
             (\<forall>j \<in> {0..<IRDB_CACHE_SIZE}. cache_valid (cache st ! j)) \<and>
             (\<forall>j \<in> {0..<i}. t2 < last_access (cache st ! j)) \<and>
             (\<forall>j \<in> {i + 1..<IRDB_CACHE_SIZE}. t2 \<le> last_access (cache st ! j))"
    by (simp add: get)
qed

lemma full_cache_target: "select_target (cache full_cache) = 1"
  by code_simp

theorem cache_put_get_lru_witness:
  "length (cache full_cache) = 4
   \<and> select_target (cache full_cache) = 1
   \<and> irdb_cache_put ''samsung/tv'' (Caller new_db) 50 (Some 7) full_cache =
       (Inr (),
        \<lparr>cache = (cache full_cache)[1 :=
             \<lparr>path = ''samsung/tv'',
              database = \<lparr>manufacturer = ''samsung'', device_type = ''tv'',
                          entries = Some 7, entry_count = 2\<rparr>,
              last_access = 50, cache_valid = True\<rparr>],
         heap = ((heap full_cache)(2 := None))
                  (7 := Some [tv_entry ''Power'' 8, tv_entry ''Mute'' 9])\<rparr>)
   \<and> irdb_cache_get ''sony/tv'' 60 full_cache =
       (Inr 1, full_cache\<lparr>cache := (cache full_cache)[1 :=
                  (cache full_cache ! 1)\<lparr>last_access := 60\<rparr>]\<rparr>)
   \<and> select_target (cache (snd (irdb_cache_get ''sony/tv'' 60 full_cache))) \<noteq> 1"
proof -
  have len: "length (cache full_cache) = 4"
    by (simp add: full_cache_def)
  have t: "select_target (cache full_cache) = 1"
    by (rule full_cache_target)
  have slot: "cache full_cache ! 1 =
      \<lparr>path = ''sony/tv'',
       database = \<lparr>manufacturer = ''sony'', device_type = ''tv'', entries = Some 2,
                   entry_count = 1\<rparr>,
       last_access = 10, cache_valid = True\<rparr>"
    by (simp add: full_cache_def)
  have fr: "snd (free_old (cache full_cache ! 1) (heap full_cache)) = (heap full_cache)(2 := None)"
    unfolding free_old_heap slot by simp
  have "source_entries new_db ((heap full_cache)(2 := None)) =
               Some [tv_entry ''Power'' 8, tv_entry ''Mute'' 9]"
    by (simp add: source_entries_def new_db_def full_cache_def)
  then have "source_entries new_db
      (snd (free_old (cache full_cache ! select_target (cache full_cache)) (heap full_cache))) =
        Some [tv_entry ''Power'' 8, tv_entry ''Mute'' 9]"
    by (simp only: t fr)
  then have src: "db_in_range (Caller new_db) \<and>
      Caller new_db \<noteq> Slot (select_target (cache full_cache)) \<and>
      read_db (Caller new_db) (cache full_cache) = new_db \<and>
      source_entries new_db
        (snd (free_old (cache full_cache ! select_target (cache full_cache)) (heap full_cache))) =
        Some [tv_entry ''Power'' 8, tv_entry ''Mute'' 9]"
    by (simp add: db_in_range_def read_db_def)
  have hit: "1 < IRDB_CACHE_SIZE \<and> cache_valid (cache full_cache ! 1) \<and>
      path (cache full_cache ! 1) = ''sony/tv'' \<and>
      (\<forall>j \<in> {0..<1}. \<not> (cache_valid (cache full_cache ! j) \<and>
                            path (cache full_cache ! j) = ''sony/tv''))"
    by (simp add: full_cache_def)
  have older: "\<not> (\<forall>j \<in> {0..<1}. (60 :: 32 word) < last_access (cache full_cache ! j))"
    by (simp add: full_cache_def)
  note T = cache_put_get_lru [where st = full_cache and dbp = "Caller new_db" and db = new_db
        and key = "''samsung/tv''" and now = 50 and a = 7
        and es = "[tv_entry ''Power'' 8, tv_entry ''Mute'' 9]"
        and i = 1 and k = "''sony/tv''" and ?t2.0 = 60, OF len]
  note P = T [THEN conjunct2, THEN conjunct1, THEN mp, OF src, THEN conjunct1]
  note G = T [THEN conjunct2, THEN conjunct2, THEN mp, OF hit]
  have put: "irdb_cache_put ''samsung/tv'' (Caller new_db) 50 (Some 7) full_cache =
       (Inr (),
        \<lparr>cache = (cache full_cache)[1 :=
             \<lparr>path = ''samsung/tv'',
              database = \<lparr>manufacturer = ''samsung'', device_type = ''tv'',
                          entries = Some 7, entry_count = 2\<rparr>,
              last_access = 50, cache_valid = True\<rparr>],
         heap = ((heap full_cache)(2 := None))
                  (7 := Some [tv_entry ''Power'' 8, tv_entry ''Mute'' 9])\<rparr>)"
    unfolding P t fr by (simp add: strncpy_def new_db_def)
  have "select_target (cache (snd (irdb_cache_get ''sony/tv'' 60 full_cache))) \<noteq> 1"
    using G [THEN conjunct2] older by blast
  then show ?thesis
    using len t put G [THEN conjunct1]
    by (intro conjI)
qed

subsection \<open>A get at the timestamp of the other slots\<close>

lemma tie_get: "irdb_cache_get ''lg/tv'' 10 tie_cache = (Inr 0, tie_cache)"
proof -
  have "(cache tie_cache ! 0)\<lparr>last_access := 10\<rparr> = cache tie_cache ! 0"
    by (simp add: tie_cache_def)
  moreover have "(cache tie_cache)[0 := cache tie_cache ! 0] = cache tie_cache"
    by (simp add: tie_cache_def)
  moreover have "irdb_cache_get ''lg/tv'' 10 tie_cache =
      (Inr 0, tie_cache\<lparr>cache := (cache tie_cache)[0 := (cache tie_cache ! 0)
                                                      \<lparr>last_access := 10\<rparr>]\<rparr>)"
    by (intro cache_get_hit) (simp_all add: tie_cache_def)
  ultimately show ?thesis by simp
qed

lemma tie_target: "select_target (cache tie_cache) = 0"
  by code_simp

text \<open>
  The database of slot 0, as the get hands it out, put back under another key: the slot
  is slot 0 again, its block is freed before it is read, and the copy has no entries and
  empty labels.
\<close>

lemma tie_put_aliased:
  "irdb_cache_put ''lg/copy'' (Slot 0) 10 (Some 7) tie_cache =
     (Inr (),
      \<lparr>cache = (cache tie_cache)[0 :=
           \<lparr>path = ''lg/copy'',
            database = \<lparr>manufacturer = [], device_type = [], entries = Some 7,
                        entry_count = 0\<rparr>,
            last_access = 10, cache_valid = True\<rparr>],
       heap = ((heap tie_cache)(1 := None))(7 := Some [])\<rparr>)"
proof -
  have "irdb_cache_put ''lg/copy'' (Slot (select_target (cache tie_cache))) 10 (Some 7)
          tie_cache =
     (Inr (),
      \<lparr>cache = (cache tie_cache)[select_target (cache tie_cache) :=
           \<lparr>path = strncpy 127 ''lg/copy'',
            database = \<lparr>manufacturer = [], device_type = [], entries = Some 7,
                        entry_count = 0\<rparr>,
            last_access = 10, cache_valid = True\<rparr>],
       heap = ((heap tie_cache)(1 := None))(7 := Some [])\<rparr>)"
    by (rule cache_put_aliased) (simp_all add: tie_target, simp_all add: tie_cache_def)
  then show ?thesis
    unfolding tie_target by (simp add: strncpy_def)
qed

text \<open>
  Claim C8, as stated, fails.  In a cache whose four slots are valid with the timestamp
  10, a get of the key of slot 0 at the uptime 10 hits and leaves the timestamps equal;
  the put that follows chooses slot 0 all the same, and the key that was just got is
  gone.
\<close>

theorem cache_reget_not_protected:
  "fst (irdb_cache_get ''lg/tv'' 10 tie_cache) = Inr 0
   \<and> select_target (cache (snd (irdb_cache_get ''lg/tv'' 10 tie_cache))) = 0
   \<and> fst (irdb_cache_put ''samsung/tv'' (Caller new_db) 10 (Some 7)
            (snd (irdb_cache_get ''lg/tv'' 10 tie_cache))) = Inr ()
   \<and> fst (irdb_cache_get ''lg/tv'' 10
            (snd (irdb_cache_put ''samsung/tv'' (Caller new_db) 10 (Some 7)
                    (snd (irdb_cache_get ''lg/tv'' 10 tie_cache))))) = Inl ENOENT"
proof -
  have slot: "cache tie_cache ! 0 =
      \<lparr>path = ''lg/tv'',
       database = \<lparr>manufacturer = ''lg'', device_type = ''tv'', entries = Some 1,
                   entry_count = 1\<rparr>,
       last_access = 10, cache_valid = True\<rparr>"
    by (simp add: tie_cache_def)
  have fr: "snd (free_old (cache tie_cache ! 0) (heap tie_cache)) = (heap tie_cache)(1 := None)"
    unfolding free_old_heap slot by simp
  have "source_entries new_db ((heap tie_cache)(1 := None)) =
          Some [tv_entry ''Power'' 8, tv_entry ''Mute'' 9]"
    by (simp add: source_entries_def new_db_def tie_cache_def)
  then have src: "source_entries new_db
      (snd (free_old (cache tie_cache ! select_target (cache tie_cache)) (heap tie_cache))) =
        Some [tv_entry ''Power'' 8, tv_entry ''Mute'' 9]"
    by (simp only: tie_target fr)
  have put: "irdb_cache_put ''samsung/tv'' (Caller new_db) 10 (Some 7) tie_cache =
      (Inr (),
       \<lparr>cache = (cache tie_cache)[select_target (cache tie_cache) :=
            \<lparr>path = strncpy 127 ''samsung/tv'',
             database = \<lparr>manufacturer = strncpy 63 (manufacturer new_db),
                         device_type = strncpy 63 (device_type new_db),
                         entries = Some 7, entry_count = entry_count new_db\<rparr>,
             last_access = 10, cache_valid = True\<rparr>],
        heap = (snd (free_old (cache tie_cache ! select_target (cache tie_cache))
                       (heap tie_cache)))
                 (7 := Some [tv_entry ''Power'' 8, tv_entry ''Mute'' 9])\<rparr>)"
    by (rule cache_put_success [OF _ _ _ src]) (simp_all add: db_in_range_def read_db_def)
  have miss: "fst (irdb_cache_get ''lg/tv'' 10
                (snd (irdb_cache_put ''samsung/tv'' (Caller new_db) 10 (Some 7) tie_cache)))
              = Inl ENOENT"
    unfolding put tie_target
    by (subst cache_get_miss) (auto simp: tie_cache_def strncpy_def nth_Cons split: nat.splits)
  show ?thesis
    unfolding tie_get using tie_target put miss by simp
qed

subsection \<open>Operations that keep the slots consistent\<close>

text \<open>
  A get, a put that succeeds, a put that fails on an invalid slot and a clear leave no
  slot that is marked valid without an array of entries.
\<close>

lemma consistent_update:
  assumes "\<forall>s \<in> set c. slot_consistent s" and "slot_consistent x"
  shows "\<forall>s \<in> set (c[i := x]). slot_consistent s"
  using assms set_update_subset_insert [of c i x] by auto

lemma get_keeps_consistent:
  assumes "\<forall>s \<in> set (cache st). slot_consistent s" and "length (cache st) = IRDB_CACHE_SIZE"
  shows "\<forall>s \<in> set (cache (snd (irdb_cache_get k now st))). slot_consistent s"
proof (cases "find (\<lambda>i. cache_valid (cache st ! i) \<and> path (cache st ! i) = k)
                [0..<IRDB_CACHE_SIZE]")
  case None
  then show ?thesis
    using assms(1) by (simp add: irdb_cache_get_def)
next
  case (Some i)
  then have "i < IRDB_CACHE_SIZE"
    by (auto simp: find_Some_iff)
  then have "cache st ! i \<in> set (cache st)"
    using assms(2) by simp
  then have "slot_consistent ((cache st ! i)\<lparr>last_access := now\<rparr>)"
    using assms(1) by (simp add: slot_consistent_def)
  then show ?thesis
    using Some consistent_update [OF assms(1)]
    by (simp add: irdb_cache_get_def)
qed

lemma put_success_keeps_consistent:
  assumes "\<forall>s \<in> set (cache st). slot_consistent s"
    and "fst (irdb_cache_put key db now alloc st) = Inr ()"
  shows "\<forall>s \<in> set (cache (snd (irdb_cache_put key db now alloc st))). slot_consistent s"
proof -
  have "\<exists>x. cache (snd (irdb_cache_put key db now alloc st)) =
              (cache st)[select_target (cache st) := x] \<and> entries (database x) \<noteq> None"
    using assms(2)
    by (auto simp: irdb_cache_put_def Let_def split: option.splits if_splits)
  then obtain x where c: "cache (snd (irdb_cache_put key db now alloc st)) =
                            (cache st)[select_target (cache st) := x]"
    and x: "entries (database x) \<noteq> None"
    by blast
  have "slot_consistent x"
    using x by (simp add: slot_consistent_def)
  then show ?thesis
    unfolding c by (rule consistent_update [OF assms(1)])
qed

lemma put_failure_on_invalid_slot_keeps_consistent:
  assumes "\<forall>s \<in> set (cache st). slot_consistent s"
    and "\<not> cache_valid (cache st ! select_target (cache st))"
  shows "\<forall>s \<in> set (cache (snd (irdb_cache_put key db now None st))). slot_consistent s"
proof (cases "db_in_range db")
  case False
  then show ?thesis
    using assms(1) by (simp add: irdb_cache_put_def)
next
  case True
  then obtain x where c: "cache (snd (irdb_cache_put key db now None st)) =
                       (cache st)[select_target (cache st) := x]"
    and x: "\<not> cache_valid x"
    using assms(2) by (simp add: irdb_cache_put_def Let_def)
  have "slot_consistent x"
    using x by (simp add: slot_consistent_def)
  then show ?thesis
    unfolding c by (rule consistent_update [OF assms(1)])
qed

lemma clear_slot_cache:
  "cache (clear_slot i st) =
     (if cache_valid (cache st ! i)
      then (cache st)[i := (cache st ! i)
             \<lparr>database := fst (irdb_free_database (database (cache st ! i)) (heap st)),
              cache_valid := False\<rparr>]
      else cache st)"
  by (simp add: clear_slot_def Let_def)

lemma clear_slot_length [simp]: "length (cache (clear_slot i st)) = length (cache st)"
  by (simp add: clear_slot_cache)

lemma clear_slot_valid:
  assumes "i < length (cache st)"
  shows "cache_valid (cache (clear_slot i st) ! j) \<longleftrightarrow> cache_valid (cache st ! j) \<and> j \<noteq> i"
  using assms by (auto simp: clear_slot_cache nth_list_update)

lemma clear_invalidates_all:
  assumes "length (cache st) = IRDB_CACHE_SIZE" and "j < IRDB_CACHE_SIZE"
  shows "\<not> cache_valid (cache (irdb_cache_clear st) ! j)"
proof -
  have up: "[0..<IRDB_CACHE_SIZE] = [0, 1, 2, 3]"
    by (simp add: upt_rec)
  have "j = 0 \<or> j = 1 \<or> j = 2 \<or> j = 3"
    using assms(2) by auto
  then show ?thesis
    unfolding irdb_cache_clear_def up
    using assms(1) by (auto simp: clear_slot_valid)
qed

subsection \<open>A put whose allocation fails\<close>

text \<open>The example cache has no partially initialised slot.\<close>

lemma full_cache_consistent: "list_all slot_consistent (cache full_cache)"
  by (simp add: full_cache_def slot_consistent_def)

text \<open>
  Claim C9.  In a cache whose slots are all valid, a \<open>irdb_cache_put\<close> whose
  allocation fails returns \<open>-ENOMEM\<close> and leaves the chosen slot marked valid with
  the new key, the new entry count and a null \<open>entries\<close> pointer, its old database
  freed; a following \<open>irdb_cache_get\<close> of the new key hits this slot.
\<close>

theorem cache_put_failure_exposes_slot:
  "fst (irdb_cache_put ''samsung/tv'' (Caller new_db) 50 None full_cache) = Inl ENOMEM
   \<and> cache (snd (irdb_cache_put ''samsung/tv'' (Caller new_db) 50 None full_cache)) ! 1 =
       \<lparr>path = ''samsung/tv'',
        database = \<lparr>manufacturer = [], device_type = [], entries = None, entry_count = 2\<rparr>,
        last_access = 10, cache_valid = True\<rparr>
   \<and> fst (irdb_cache_get ''samsung/tv'' 60
            (snd (irdb_cache_put ''samsung/tv'' (Caller new_db) 50 None full_cache))) = Inr 1"
proof -
  have t: "select_target (cache full_cache) = 1"
    by (rule full_cache_target)
  have slot: "cache full_cache ! 1 =
      \<lparr>path = ''sony/tv'',
       database = \<lparr>manufacturer = ''sony'', device_type = ''tv'', entries = Some 2,
                   entry_count = 1\<rparr>,
       last_access = 10, cache_valid = True\<rparr>"
    by (simp add: full_cache_def)
  have put: "irdb_cache_put ''samsung/tv'' (Caller new_db) 50 None full_cache =
      (Inl ENOMEM,
       \<lparr>cache = (cache full_cache)[1 :=
           \<lparr>path = ''samsung/tv'',
            database = \<lparr>manufacturer = [], device_type = [], entries = None,
                        entry_count = 2\<rparr>,
            last_access = 10, cache_valid = True\<rparr>],
        heap = (heap full_cache)(2 := None)\<rparr>)"
    unfolding irdb_cache_put_def t Let_def slot
    by (simp add: free_old_def irdb_free_database_def zero_database_def strncpy_def new_db_def
        db_in_range_def read_db_def)
  have c: "cache (snd (irdb_cache_put ''samsung/tv'' (Caller new_db) 50 None full_cache)) =
      [cache full_cache ! 0,
       \<lparr>path = ''samsung/tv'',
        database = \<lparr>manufacturer = [], device_type = [], entries = None, entry_count = 2\<rparr>,
        last_access = 10, cache_valid = True\<rparr>,
       cache full_cache ! 2, cache full_cache ! 3]"
    unfolding put by (simp add: full_cache_def)
  have get: "fst (irdb_cache_get ''samsung/tv'' 60
            (snd (irdb_cache_put ''samsung/tv'' (Caller new_db) 50 None full_cache))) = Inr 1"
    unfolding irdb_cache_get_def c by (simp add: full_cache_def upt_rec)
  show ?thesis
    unfolding c using put get by simp
qed

end
